theory Spec2Isabelle
  imports Main "HOL-Library.Word" "HOL-Library.List_Lexorder"
begin

unbundle bit_operations_syntax

section \<open>Python strings and bytes\<close>

text \<open>
  A Python \<^verbatim>\<open>str\<close> is a sequence of Unicode code points, so it is modelled as a list of
  natural numbers (a Python string only holds code points below \<open>0x110000\<close>; lone surrogates
  \<open>0xD800..0xDFFF\<close> are allowed in a \<^verbatim>\<open>str\<close> but cannot be encoded). Bytes are 8-bit
  words. \<open>py ''abc''\<close> is the Python literal \<^verbatim>\<open>"abc"\<close>.
\<close>

type_synonym str = "nat list"
type_synonym byte = "8 word"

abbreviation py :: "string \<Rightarrow> str" where
  "py s \<equiv> map of_char s"

text \<open>\<^verbatim>\<open>str.isspace\<close> for one character; the regular expression class \<^verbatim>\<open>\s\<close> is the same set.\<close>

definition isspace :: "nat \<Rightarrow> bool" where
  "isspace c \<longleftrightarrow>
     (9 \<le> c \<and> c \<le> 13) \<or> (28 \<le> c \<and> c \<le> 32) \<or> c = 133 \<or> c = 160 \<or> c = 5760 \<or>
     (8192 \<le> c \<and> c \<le> 8202) \<or> c = 8232 \<or> c = 8233 \<or> c = 8239 \<or> c = 8287 \<or> c = 12288"

definition lstrip :: "str \<Rightarrow> str" where
  "lstrip s = dropWhile isspace s"

definition rstrip :: "str \<Rightarrow> str" where
  "rstrip s = rev (dropWhile isspace (rev s))"

definition strip :: "str \<Rightarrow> str" where
  "strip s = lstrip (rstrip s)"

text \<open>
  \<^verbatim>\<open>str.lower\<close> follows the tables of the Unicode database that the Python runtime was
  built with (and, for the Greek capital sigma, the cased characters around it), so it is a
  parameter of the model: every definition below that calls it takes the function as its
  argument \<open>lower\<close>.
\<close>

type_synonym lowering = "str \<Rightarrow> str"

text \<open>\<^verbatim>\<open>s.find(c)\<close> for a single character: the first index, or None where Python gives -1.\<close>

fun find_char :: "nat \<Rightarrow> str \<Rightarrow> nat option" where
  "find_char c [] = None"
| "find_char c (x # xs) = (if x = c then Some 0 else map_option Suc (find_char c xs))"

text \<open>\<^verbatim>\<open>'\n'.join(lines)\<close>.\<close>

fun join_lines :: "str list \<Rightarrow> str" where
  "join_lines [] = []"
| "join_lines [l] = l"
| "join_lines (l # ls) = l @ 10 # join_lines ls"

text \<open>Iterating over \<^verbatim>\<open>io.StringIO(text)\<close>: the lines, each with its terminating newline.\<close>

fun readlines :: "str \<Rightarrow> str list" where
  "readlines [] = []"
| "readlines (c # cs) =
     (if c = 10 then [10] # readlines cs
      else (case readlines cs of [] \<Rightarrow> [[c]] | l # ls \<Rightarrow> (c # l) # ls))"

subsection \<open>Text files: newline translation and codecs\<close>

text \<open>
  Reading in text mode (\<^verbatim>\<open>newline=None\<close>) turns \<^verbatim>\<open>\r\n\<close> and a lone \<^verbatim>\<open>\r\<close> into
  \<^verbatim>\<open>\n\<close>; writing turns \<^verbatim>\<open>\n\<close> into \<^verbatim>\<open>os.linesep\<close>, which is \<^verbatim>\<open>\r\n\<close> on Windows,
  the only platform the program runs on.
\<close>

fun universal_newlines :: "str \<Rightarrow> str" where
  "universal_newlines [] = []"
| "universal_newlines [c] = [if c = 13 then 10 else c]"
| "universal_newlines (c # d # cs) =
     (if c = 13 \<and> d = 10 then 10 # universal_newlines cs
      else if c = 13 then 10 # universal_newlines (d # cs)
      else c # universal_newlines (d # cs))"

definition write_newlines :: "str \<Rightarrow> str" where
  "write_newlines s = concat (map (\<lambda>c. if c = 10 then [13, 10] else [c]) s)"

text \<open>UTF-16: a code point is encodable unless it is a surrogate.\<close>

definition encodable :: "nat \<Rightarrow> bool" where
  "encodable c \<longleftrightarrow> c < 0xD800 \<or> (0xE000 \<le> c \<and> c < 0x110000)"

definition utf16_units :: "nat \<Rightarrow> nat list" where
  "utf16_units c =
     (if c < 0x10000 then [c]
      else [0xD800 + (c - 0x10000) div 0x400, 0xDC00 + (c - 0x10000) mod 0x400])"

definition le_bytes :: "nat \<Rightarrow> byte list" where
  "le_bytes u = [of_nat (u mod 256), of_nat (u div 256)]"

definition utf16_le_encode :: "str \<Rightarrow> byte list option" where
  "utf16_le_encode s =
     (if list_all encodable s then Some (concat (map le_bytes (concat (map utf16_units s))))
      else None)"

definition BOM_LE :: "byte list" where
  "BOM_LE = [0xFF, 0xFE]"

definition BOM_BE :: "byte list" where
  "BOM_BE = [0xFE, 0xFF]"

fun units_le :: "byte list \<Rightarrow> nat list option" where
  "units_le [] = Some []"
| "units_le [b] = None"
| "units_le (lo # hi # bs) = map_option (Cons (unat lo + 256 * unat hi)) (units_le bs)"

fun units_be :: "byte list \<Rightarrow> nat list option" where
  "units_be [] = Some []"
| "units_be [b] = None"
| "units_be (hi # lo # bs) = map_option (Cons (unat lo + 256 * unat hi)) (units_be bs)"

fun utf16_combine :: "nat list \<Rightarrow> str option" where
  "utf16_combine [] = Some []"
| "utf16_combine [u] = (if 0xD800 \<le> u \<and> u < 0xE000 then None else Some [u])"
| "utf16_combine (u # l # us) =
     (if 0xD800 \<le> u \<and> u < 0xDC00 then
        (if 0xDC00 \<le> l \<and> l < 0xE000
         then map_option (Cons (0x10000 + (u - 0xD800) * 0x400 + (l - 0xDC00))) (utf16_combine us)
         else None)
      else if 0xDC00 \<le> u \<and> u < 0xE000 then None
      else map_option (Cons u) (utf16_combine (l # us)))"

text \<open>
  Reading a file with \<^verbatim>\<open>encoding="utf-16"\<close>: the stream decoder takes the byte order from the
  byte order mark and raises when a non-empty file has none. None stands for the exception.
\<close>

definition utf16_decode :: "byte list \<Rightarrow> str option" where
  "utf16_decode bs =
     (if bs = [] then Some []
      else if take 2 bs = BOM_LE then Option.bind (units_le (drop 2 bs)) utf16_combine
      else if take 2 bs = BOM_BE then Option.bind (units_be (drop 2 bs)) utf16_combine
      else None)"

definition cont :: "nat \<Rightarrow> bool" where
  "cont b \<longleftrightarrow> 0x80 \<le> b \<and> b \<le> 0xBF"

fun utf8_decode :: "nat list \<Rightarrow> str option" where
  "utf8_decode [] = Some []"
| "utf8_decode (b # bs) =
     (if b < 0x80 then map_option (Cons b) (utf8_decode bs)
      else if 0xC2 \<le> b \<and> b \<le> 0xDF then
        (case bs of
           c1 # r \<Rightarrow>
             if cont c1
             then map_option (Cons ((b - 0xC0) * 64 + (c1 - 0x80))) (utf8_decode r)
             else None
         | _ \<Rightarrow> None)
      else if 0xE0 \<le> b \<and> b \<le> 0xEF then
        (case bs of
           c1 # c2 # r \<Rightarrow>
             if cont c1 \<and> cont c2 \<and> (if b = 0xE0 then 0xA0 \<le> c1 else True) \<and>
                (if b = 0xED then c1 \<le> 0x9F else True)
             then map_option (Cons ((b - 0xE0) * 4096 + (c1 - 0x80) * 64 + (c2 - 0x80)))
                    (utf8_decode r)
             else None
         | _ \<Rightarrow> None)
      else if 0xF0 \<le> b \<and> b \<le> 0xF4 then
        (case bs of
           c1 # c2 # c3 # r \<Rightarrow>
             if cont c1 \<and> cont c2 \<and> cont c3 \<and> (if b = 0xF0 then 0x90 \<le> c1 else True) \<and>
                (if b = 0xF4 then c1 \<le> 0x8F else True)
             then map_option
                    (Cons ((b - 0xF0) * 262144 + (c1 - 0x80) * 4096 + (c2 - 0x80) * 64 + (c3 - 0x80)))
                    (utf8_decode r)
             else None
         | _ \<Rightarrow> None)
      else None)"

definition BOM_UTF8 :: "byte list" where
  "BOM_UTF8 = [0xEF, 0xBB, 0xBF]"

text \<open>
  Reading a file with \<^verbatim>\<open>encoding="utf-8-sig"\<close>: a leading byte order mark is skipped; a file
  shorter than the mark that is a prefix of it reads as the empty string.
\<close>

definition utf8_sig_decode :: "byte list \<Rightarrow> str option" where
  "utf8_sig_decode bs =
     (if length bs < 3 \<and> bs = take (length bs) BOM_UTF8 then Some []
      else if take 3 bs = BOM_UTF8 then utf8_decode (map unat (drop 3 bs))
      else utf8_decode (map unat bs))"

text \<open>
  The three encodings \<^verbatim>\<open>safe_read_config\<close> tries. \<^verbatim>\<open>mbcs\<close> is the ANSI code page of the
  Windows installation, so its decoder is a parameter of the model.
\<close>

datatype encoding = UTF16 | UTF8_SIG | MBCS

type_synonym codepage = "byte list \<Rightarrow> str option"

fun decode :: "codepage \<Rightarrow> encoding \<Rightarrow> byte list \<Rightarrow> str option" where
  "decode mbcs UTF16 bs = utf16_decode bs"
| "decode mbcs UTF8_SIG bs = utf8_sig_decode bs"
| "decode mbcs MBCS bs = mbcs bs"

text \<open>\<^verbatim>\<open>Path.read_text(encoding=...)\<close>: decode, then translate newlines.\<close>

definition read_text :: "codepage \<Rightarrow> encoding \<Rightarrow> byte list \<Rightarrow> str option" where
  "read_text mbcs enc bs = map_option universal_newlines (decode mbcs enc bs)"


section \<open>The configuration parser\<close>

text \<open>
  The program keeps a sidecar document in a \<^verbatim>\<open>configparser.ConfigParser\<close> of the Python
  standard library, created with the default options: delimiters \<^verbatim>\<open>=\<close> and \<^verbatim>\<open>:\<close>, full-line
  comments starting with \<^verbatim>\<open>#\<close> or \<^verbatim>\<open>;\<close>, no inline comments, strict, empty lines allowed
  in values, no valueless options, default section \<^verbatim>\<open>DEFAULT\<close>, basic interpolation. The
  program replaces \<^verbatim>\<open>optionxform\<close> by \<^verbatim>\<open>str\<close>, so option names keep their case. The model
  follows the library of CPython 3.11.
\<close>

datatype error =
    FileNotFoundError
  | OSError
  | PermissionError
  | ValueError
  | KeyError
  | AttributeError
  | UnicodeEncodeError
  | UnicodeDecodeError
  | NoSectionError
  | DuplicateSectionError
  | DuplicateOptionError
  | MissingSectionHeaderError
  | ParsingError
  | InterpolationSyntaxError
  | InterpolationMissingOptionError
  | InterpolationDepthError

text \<open>A Python \<^verbatim>\<open>dict\<close> keeps insertion order: an association list with distinct keys.\<close>

type_synonym ('k, 'v) dict = "('k \<times> 'v) list"

fun dict_set :: "'k \<Rightarrow> 'v \<Rightarrow> ('k, 'v) dict \<Rightarrow> ('k, 'v) dict" where
  "dict_set k v [] = [(k, v)]"
| "dict_set k v ((k', v') # d) = (if k' = k then (k, v) # d else (k', v') # dict_set k v d)"

definition dict_del :: "'k \<Rightarrow> ('k, 'v) dict \<Rightarrow> ('k, 'v) dict" where
  "dict_del k d = filter (\<lambda>kv. fst kv \<noteq> k) d"

definition dict_keys :: "('k, 'v) dict \<Rightarrow> 'k list" where
  "dict_keys d = map fst d"

definition dict_has :: "'k \<Rightarrow> ('k, 'v) dict \<Rightarrow> bool" where
  "dict_has k d \<longleftrightarrow> k \<in> set (dict_keys d)"

text \<open>\<^verbatim>\<open>d.update(other)\<close>.\<close>

definition dict_update :: "('k, 'v) dict \<Rightarrow> ('k, 'v) dict \<Rightarrow> ('k, 'v) dict" where
  "dict_update d other = foldl (\<lambda>acc kv. dict_set (fst kv) (snd kv) acc) d other"

text \<open>
  The parser object: \<^verbatim>\<open>_defaults\<close> and \<^verbatim>\<open>_sections\<close>. While a text is being read the values
  are lists of lines (\<open>'v = pval\<close>), joined at the end of the read; everywhere else they are
  strings.
\<close>

record 'v ConfigParser =
  defaults :: "(str, 'v) dict"
  sections :: "(str, (str, 'v) dict) dict"

datatype pval = Str str | Lines "str list"

definition new_parser :: "str ConfigParser" where
  "new_parser = \<lparr>defaults = [], sections = []\<rparr>"

definition DEFAULTSECT :: str where
  "DEFAULTSECT = py ''DEFAULT''"

definition MAX_INTERPOLATION_DEPTH :: nat where
  "MAX_INTERPOLATION_DEPTH = 10"

subsection \<open>Reading\<close>

text \<open>The state of the loop of \<^verbatim>\<open>RawConfigParser._read\<close>. The variable \<^verbatim>\<open>cursect\<close> is the
  dictionary of the section \<^verbatim>\<open>sectname\<close> (the defaults when that is the default section), and
  is None exactly when \<^verbatim>\<open>sectname\<close> is.\<close>

record rstate =
  cfg :: "pval ConfigParser"
  elements_added :: "(str + str \<times> str) list"
  sectname :: "str option"
  optname :: "str option"
  indent_level :: nat
  e :: bool

definition cursect :: "rstate \<Rightarrow> str \<Rightarrow> (str, pval) dict" where
  "cursect st sn =
     (case map_of (sections (cfg st)) sn of Some d \<Rightarrow> d | None \<Rightarrow> defaults (cfg st))"

definition cursect_set :: "rstate \<Rightarrow> str \<Rightarrow> str \<Rightarrow> pval \<Rightarrow> rstate" where
  "cursect_set st sn k v =
     (case map_of (sections (cfg st)) sn of
        Some d \<Rightarrow> st\<lparr>cfg := (cfg st)\<lparr>sections := dict_set sn (dict_set k v d) (sections (cfg st))\<rparr>\<rparr>
      | None \<Rightarrow> st\<lparr>cfg := (cfg st)\<lparr>defaults := dict_set k v (defaults (cfg st))\<rparr>\<rparr>)"

text \<open>\<^verbatim>\<open>cursect[optname].append(value)\<close>.\<close>

definition cursect_append :: "rstate \<Rightarrow> str \<Rightarrow> str \<Rightarrow> str \<Rightarrow> error + rstate" where
  "cursect_append st sn k v =
     (case map_of (cursect st sn) k of
        None \<Rightarrow> Inl KeyError
      | Some (Str s) \<Rightarrow> Inl AttributeError
      | Some (Lines ls) \<Rightarrow> Inr (cursect_set st sn k (Lines (ls @ [v]))))"

text \<open>\<^verbatim>\<open>line.strip().startswith(prefix)\<close> for one of the comment prefixes.\<close>

definition is_comment :: "str \<Rightarrow> bool" where
  "is_comment line = (case strip line of [] \<Rightarrow> False | c # _ \<Rightarrow> c = 35 \<or> c = 59)"

fun last_index :: "nat \<Rightarrow> str \<Rightarrow> nat option" where
  "last_index c [] = None"
| "last_index c (x # xs) =
     (case last_index c xs of
        Some i \<Rightarrow> Some (Suc i)
      | None \<Rightarrow> if x = c then Some 0 else None)"

text \<open>\<^verbatim>\<open>SECTCRE.match(value)\<close> for the pattern \<^verbatim>\<open>\[(?P<header>.+)\]\<close>: the header runs up to the
  last closing bracket (on the first line of the value) and is not empty.\<close>

definition sect_match :: "str \<Rightarrow> str option" where
  "sect_match v =
     (case v of
        [] \<Rightarrow> None
      | c # rest \<Rightarrow>
          if c \<noteq> 91 then None
          else (let body = takeWhile (\<lambda>x. x \<noteq> 10) rest in
                case last_index 93 body of
                  None \<Rightarrow> None
                | Some k \<Rightarrow> if k = 0 then None else Some (take k body)))"

fun find_delim :: "str \<Rightarrow> nat option" where
  "find_delim [] = None"
| "find_delim (x # xs) = (if x = 61 \<or> x = 58 then Some 0 else map_option Suc (find_delim xs))"

text \<open>\<^verbatim>\<open>OPTCRE.match(value)\<close> for the pattern
  \<^verbatim>\<open>(?P<option>.*?)\s*(?P<vi>=|:)\s*(?P<value>.*)$\<close>, on a value without a newline (it is a
  stripped line): the option is what stands before the first delimiter, without the white
  space at its end, and the value is what follows it, without the white space at its start.\<close>

definition opt_match :: "str \<Rightarrow> (str \<times> str) option" where
  "opt_match v =
     (case find_delim v of
        None \<Rightarrow> None
      | Some j \<Rightarrow> Some (rstrip (take j v), lstrip (drop (Suc j) v)))"

text \<open>One iteration of the loop over the lines; Inl is an exception raised at once.\<close>

definition read_line :: "rstate \<Rightarrow> str \<Rightarrow> error + rstate" where
  "read_line st line =
     (let comment = is_comment line;
          v = (if comment then [] else strip line)
      in if v = [] then
           (case (sectname st, optname st) of
              (Some sn, Some k) \<Rightarrow>
                if \<not> comment \<and> k \<noteq> [] then
                  (case map_of (cursect st sn) k of
                     None \<Rightarrow> Inl KeyError
                   | Some _ \<Rightarrow> cursect_append st sn k [])
                else Inr st
            | _ \<Rightarrow> Inr st)
         else
           (let cur_indent_level = length (takeWhile isspace line);
                continuation =
                  (case (sectname st, optname st) of
                     (Some sn, Some k) \<Rightarrow>
                       if k \<noteq> [] \<and> cur_indent_level > indent_level st then Some (sn, k) else None
                   | _ \<Rightarrow> None)
            in case continuation of
                 Some (sn, k) \<Rightarrow> cursect_append st sn k v
               | None \<Rightarrow>
                  (let st = st\<lparr>indent_level := cur_indent_level\<rparr> in
                   case sect_match v of
                     Some name \<Rightarrow>
                       if dict_has name (sections (cfg st)) then
                         (if Inl name \<in> set (elements_added st) then Inl DuplicateSectionError
                          else Inr (st\<lparr>elements_added := Inl name # elements_added st,
                                       sectname := Some name, optname := None\<rparr>))
                       else if name = DEFAULTSECT then
                         Inr (st\<lparr>sectname := Some name, optname := None\<rparr>)
                       else
                         Inr (st\<lparr>cfg := (cfg st)\<lparr>sections := dict_set name [] (sections (cfg st))\<rparr>,
                                    elements_added := Inl name # elements_added st,
                                    sectname := Some name, optname := None\<rparr>)
                   | None \<Rightarrow>
                      (case sectname st of
                         None \<Rightarrow> Inl MissingSectionHeaderError
                       | Some sn \<Rightarrow>
                          (case opt_match v of
                             Some (k, optval) \<Rightarrow>
                               (let st = (if k = [] then st\<lparr>e := True\<rparr> else st) in
                                if Inr (sn, k) \<in> set (elements_added st)
                                then Inl DuplicateOptionError
                                else Inr (cursect_set
                                            (st\<lparr>elements_added := Inr (sn, k) # elements_added st,
                                                optname := Some k\<rparr>)
                                            sn k (Lines [strip optval])))
                           | None \<Rightarrow> Inr (st\<lparr>e := True\<rparr>))))))"

fun read_lines :: "rstate \<Rightarrow> str list \<Rightarrow> error option \<times> rstate" where
  "read_lines st [] = (None, st)"
| "read_lines st (line # rest) =
     (case read_line st line of
        Inl err \<Rightarrow> (Some err, st)
      | Inr st' \<Rightarrow> read_lines st' rest)"

text \<open>\<^verbatim>\<open>_join_multiline_values\<close>, which runs in the \<^verbatim>\<open>finally\<close> clause of \<^verbatim>\<open>_read\<close>.\<close>

fun join_value :: "pval \<Rightarrow> str" where
  "join_value (Lines ls) = rstrip (join_lines ls)"
| "join_value (Str s) = s"

definition join_multiline_values :: "pval ConfigParser \<Rightarrow> str ConfigParser" where
  "join_multiline_values p =
     \<lparr>defaults = map (\<lambda>kv. (fst kv, join_value (snd kv))) (defaults p),
      sections = map (\<lambda>sd. (fst sd, map (\<lambda>kv. (fst kv, join_value (snd kv))) (snd sd)))
                   (sections p)\<rparr>"

definition unjoined :: "str ConfigParser \<Rightarrow> pval ConfigParser" where
  "unjoined p =
     \<lparr>defaults = map (\<lambda>kv. (fst kv, Str (snd kv))) (defaults p),
      sections = map (\<lambda>sd. (fst sd, map (\<lambda>kv. (fst kv, Str (snd kv))) (snd sd))) (sections p)\<rparr>"

text \<open>\<^verbatim>\<open>parser.read_string(text)\<close>: the exception raised, if any, and the parser as the call
  leaves it. The parser is changed in place, also when the call raises.\<close>

definition read_string :: "str ConfigParser \<Rightarrow> str \<Rightarrow> error option \<times> str ConfigParser" where
  "read_string p text =
     (let st0 = \<lparr>cfg = unjoined p, elements_added = [], sectname = None, optname = None,
                indent_level = 0, e = False\<rparr>;
          r = read_lines st0 (readlines text);
          p' = join_multiline_values (cfg (snd r))
      in case fst r of
           Some err \<Rightarrow> (Some err, p')
         | None \<Rightarrow> if e (snd r) then (Some ParsingError, p') else (None, p'))"


subsection \<open>Interpolation\<close>

text \<open>\<^verbatim>\<open>_KEYCRE.match(rest)\<close> for the pattern \<^verbatim>\<open>%\(([^)]+)\)s\<close>: the name between the
  parentheses and the length of the match.\<close>

definition keycre_match :: "str \<Rightarrow> (str \<times> nat) option" where
  "keycre_match s =
     (if take 2 s = [37, 40] then
        (let name = takeWhile (\<lambda>x. x \<noteq> 41) (drop 2 s) in
         if name \<noteq> [] \<and> take 2 (drop (2 + length name) s) = [41, 115]
         then Some (name, length name + 4)
         else None)
      else None)"

text \<open>\<^verbatim>\<open>value.replace('%%', '')\<close> and \<^verbatim>\<open>_KEYCRE.sub('', value)\<close>.\<close>

fun remove_pp :: "str \<Rightarrow> str" where
  "remove_pp [] = []"
| "remove_pp [c] = [c]"
| "remove_pp (c # d # cs) =
     (if c = 37 \<and> d = 37 then remove_pp cs else c # remove_pp (d # cs))"

fun keycre_sub :: "str \<Rightarrow> str" where
  "keycre_sub [] = []"
| "keycre_sub (c # cs) =
     (case keycre_match (c # cs) of
        Some (name, n) \<Rightarrow> keycre_sub (drop (n - 1) cs)
      | None \<Rightarrow> c # keycre_sub cs)"

text \<open>\<^verbatim>\<open>BasicInterpolation.before_set\<close>: the value is returned unchanged or refused.\<close>

definition before_set :: "str \<Rightarrow> error + str" where
  "before_set v = (if 37 \<in> set (keycre_sub (remove_pp v)) then Inl ValueError else Inr v)"

text \<open>\<^verbatim>\<open>BasicInterpolation._interpolate_some\<close>, returning what the call appends to
  \<^verbatim>\<open>accum\<close>, joined. \<open>m\<close> is the mapping the references are looked up in.\<close>

function interpolate_some :: "(str \<Rightarrow> str option) \<Rightarrow> str \<Rightarrow> nat \<Rightarrow> error + str" where
  "interpolate_some m rest depth =
     (if depth > MAX_INTERPOLATION_DEPTH then Inl InterpolationDepthError
      else if rest = [] then Inr []
      else
        (case find_char 37 rest of
           None \<Rightarrow> Inr rest
         | Some p \<Rightarrow>
            (if take 1 (drop (Suc p) rest) = [37] then
               (case interpolate_some m (drop (p + 2) rest) depth of
                  Inl err \<Rightarrow> Inl err
                | Inr b \<Rightarrow> Inr (take p rest @ 37 # b))
             else if take 1 (drop (Suc p) rest) = [40] then
               (case keycre_match (drop p rest) of
                  None \<Rightarrow> Inl InterpolationSyntaxError
                | Some (var, n) \<Rightarrow>
                   (case m var of
                      None \<Rightarrow> Inl InterpolationMissingOptionError
                    | Some v \<Rightarrow>
                       (case (if 37 \<in> set v then interpolate_some m v (Suc depth) else Inr v) of
                          Inl err \<Rightarrow> Inl err
                        | Inr a \<Rightarrow>
                           (case interpolate_some m (drop (p + (n - 1) + 1) rest) depth of
                              Inl err \<Rightarrow> Inl err
                            | Inr b \<Rightarrow> Inr (take p rest @ a @ b)))))
             else Inl InterpolationSyntaxError)))"
  by pat_completeness auto
termination
  by (relation "inv_image (less_than <*lex*> less_than)
                  (\<lambda>(m, rest, depth). (Suc MAX_INTERPOLATION_DEPTH - depth, length rest))")
     (auto simp: MAX_INTERPOLATION_DEPTH_def)

declare interpolate_some.simps [simp del]

definition before_get :: "(str \<Rightarrow> str option) \<Rightarrow> str \<Rightarrow> error + str" where
  "before_get m v = interpolate_some m v 1"

subsection \<open>The methods the program calls\<close>

definition has_section :: "str ConfigParser \<Rightarrow> str \<Rightarrow> bool" where
  "has_section p section = dict_has section (sections p)"

definition sections_of :: "str ConfigParser \<Rightarrow> str list" where
  "sections_of p = dict_keys (sections p)"

definition add_section :: "str ConfigParser \<Rightarrow> str \<Rightarrow> error + str ConfigParser" where
  "add_section p section =
     (if section = DEFAULTSECT then Inl ValueError
      else if dict_has section (sections p) then Inl DuplicateSectionError
      else Inr (p\<lparr>sections := dict_set section [] (sections p)\<rparr>))"

definition options :: "str ConfigParser \<Rightarrow> str \<Rightarrow> error + str list" where
  "options p section =
     (case map_of (sections p) section of
        None \<Rightarrow> Inl NoSectionError
      | Some d \<Rightarrow> Inr (dict_keys (dict_update d (defaults p))))"

text \<open>The lookup of \<^verbatim>\<open>ChainMap({}, sectiondict, self._defaults)\<close>.\<close>

definition unify_values :: "str ConfigParser \<Rightarrow> (str, str) dict \<Rightarrow> str \<Rightarrow> str option" where
  "unify_values p d k = (case map_of d k of Some v \<Rightarrow> Some v | None \<Rightarrow> map_of (defaults p) k)"

text \<open>\<^verbatim>\<open>parser.get(section, option, fallback=fb)\<close>.\<close>

definition get :: "str ConfigParser \<Rightarrow> str \<Rightarrow> str \<Rightarrow> str \<Rightarrow> error + str" where
  "get p section option fb =
     (if section \<noteq> DEFAULTSECT \<and> \<not> dict_has section (sections p) then Inr fb
      else
        (let d = (case map_of (sections p) section of Some d \<Rightarrow> d | None \<Rightarrow> []) in
         case unify_values p d option of
           None \<Rightarrow> Inr fb
         | Some v \<Rightarrow> before_get (unify_values p d) v))"

text \<open>The list comprehension of \<^verbatim>\<open>items\<close>: the first interpolation that raises ends it.\<close>

fun items_loop :: "(str \<Rightarrow> str option) \<Rightarrow> (str, str) dict \<Rightarrow> error + (str \<times> str) list" where
  "items_loop m [] = Inr []"
| "items_loop m ((k, v) # d) =
     (case before_get m v of
        Inl err \<Rightarrow> Inl err
      | Inr v' \<Rightarrow> (case items_loop m d of Inl err \<Rightarrow> Inl err | Inr r \<Rightarrow> Inr ((k, v') # r)))"

definition items :: "str ConfigParser \<Rightarrow> str \<Rightarrow> error + (str \<times> str) list" where
  "items p section =
     (case map_of (sections p) section of
        None \<Rightarrow>
          (if section \<noteq> DEFAULTSECT then Inl NoSectionError
           else items_loop (map_of (defaults p)) (defaults p))
      | Some s \<Rightarrow> (let d = dict_update (defaults p) s in items_loop (map_of d) d))"

definition has_option :: "str ConfigParser \<Rightarrow> str \<Rightarrow> str \<Rightarrow> bool" where
  "has_option p section option =
     (if section = [] \<or> section = DEFAULTSECT then dict_has option (defaults p)
      else (case map_of (sections p) section of
              None \<Rightarrow> False
            | Some d \<Rightarrow> dict_has option d \<or> dict_has option (defaults p)))"

text \<open>\<^verbatim>\<open>ConfigParser.set\<close> with a string value: a non-empty value is validated first.\<close>

definition set_option :: "str ConfigParser \<Rightarrow> str \<Rightarrow> str \<Rightarrow> str \<Rightarrow> error + str ConfigParser" where
  "set_option p section option v =
     (case (if v \<noteq> [] then before_set v else Inr v) of
        Inl err \<Rightarrow> Inl err
      | Inr v \<Rightarrow>
         (if section = [] \<or> section = DEFAULTSECT
          then Inr (p\<lparr>defaults := dict_set option v (defaults p)\<rparr>)
          else (case map_of (sections p) section of
                  None \<Rightarrow> Inl NoSectionError
                | Some d \<Rightarrow> Inr (p\<lparr>sections := dict_set section (dict_set option v d) (sections p)\<rparr>))))"

definition remove_option :: "str ConfigParser \<Rightarrow> str \<Rightarrow> str \<Rightarrow> error + str ConfigParser" where
  "remove_option p section option =
     (if section = [] \<or> section = DEFAULTSECT
      then Inr (p\<lparr>defaults := dict_del option (defaults p)\<rparr>)
      else (case map_of (sections p) section of
              None \<Rightarrow> Inl NoSectionError
            | Some d \<Rightarrow> Inr (p\<lparr>sections := dict_set section (dict_del option d) (sections p)\<rparr>)))"

definition remove_section :: "str ConfigParser \<Rightarrow> str \<Rightarrow> str ConfigParser" where
  "remove_section p section = p\<lparr>sections := dict_del section (sections p)\<rparr>"

subsection \<open>Writing\<close>

text \<open>\<^verbatim>\<open>str(value).replace('\n', '\n\t')\<close>.\<close>

definition indent_value :: "str \<Rightarrow> str" where
  "indent_value v = concat (map (\<lambda>c. if c = 10 then [10, 9] else [c]) v)"

text \<open>The delimiter \<^verbatim>\<open>write\<close> puts between a key and its value: the first of the
  delimiters, with a space on each side.\<close>

definition DELIMITER :: str where
  "DELIMITER = py '' = ''"

text \<open>The strings \<^verbatim>\<open>_write_section\<close> and \<^verbatim>\<open>write\<close> pass to \<^verbatim>\<open>fp.write\<close>, one per call.\<close>

definition write_section :: "str \<Rightarrow> (str, str) dict \<Rightarrow> str list" where
  "write_section name its =
     (91 # name @ [93, 10]) #
     map (\<lambda>kv. fst kv @ DELIMITER @ indent_value (snd kv) @ [10]) its @ [[10]]"

definition write_parser :: "str ConfigParser \<Rightarrow> str list" where
  "write_parser p =
     (if defaults p \<noteq> [] then write_section DEFAULTSECT (defaults p) else []) @
     concat (map (\<lambda>sd. write_section (fst sd) (snd sd)) (sections p))"


section \<open>The file system\<close>

text \<open>
  A path is the list of its parts. The file system holds directories (with their attribute
  word) and regular files (with their bytes and attribute word); a log records every change
  the program makes. Permissions, locks and the read-only attribute are left out: a call on
  an existing object succeeds, and opening, writing and deleting a file fail only as written
  below.
\<close>

type_synonym path = "str list"

record regular_file =
  content :: "byte list"
  fattrs :: "32 word"

datatype fs_op =
    SetAttributes path "32 word"
  | WriteFile path "byte list"
  | Unlink path

record world =
  dirs :: "path \<rightharpoonup> 32 word"
  files :: "path \<rightharpoonup> regular_file"
  log :: "fs_op list"

definition FILE_ATTRIBUTE_HIDDEN :: int where
  "FILE_ATTRIBUTE_HIDDEN = 0x0002"

definition FILE_ATTRIBUTE_SYSTEM :: int where
  "FILE_ATTRIBUTE_SYSTEM = 0x0004"

definition INVALID_FILE_ATTRIBUTES :: int where
  "INVALID_FILE_ATTRIBUTES = 0xFFFFFFFF"

definition FILE_ATTRIBUTE_ARCHIVE :: "32 word" where
  "FILE_ATTRIBUTE_ARCHIVE = 0x20"

text \<open>\<^verbatim>\<open>Path.exists()\<close>.\<close>

definition exists :: "world \<Rightarrow> path \<Rightarrow> bool" where
  "exists w p \<longleftrightarrow> dirs w p \<noteq> None \<or> files w p \<noteq> None"

text \<open>The Win32 calls: \<^verbatim>\<open>GetFileAttributesW\<close> returns the attribute word, or \<open>0xFFFFFFFF\<close> for a
  path that does not exist; \<^verbatim>\<open>SetFileAttributesW\<close> returns 0 for such a path.\<close>

definition GetFileAttributesW :: "world \<Rightarrow> path \<Rightarrow> 32 word" where
  "GetFileAttributesW w p =
     (case dirs w p of
        Some a \<Rightarrow> a
      | None \<Rightarrow> (case files w p of Some f \<Rightarrow> fattrs f | None \<Rightarrow> 0xFFFFFFFF))"

definition SetFileAttributesW :: "world \<Rightarrow> path \<Rightarrow> 32 word \<Rightarrow> int \<times> world" where
  "SetFileAttributesW w p a =
     (case dirs w p of
        Some _ \<Rightarrow> (1, w\<lparr>dirs := (dirs w)(p \<mapsto> a), log := log w @ [SetAttributes p a]\<rparr>)
      | None \<Rightarrow>
         (case files w p of
            Some f \<Rightarrow>
              (1, w\<lparr>files := (files w)(p \<mapsto> f\<lparr>fattrs := a\<rparr>), log := log w @ [SetAttributes p a]\<rparr>)
          | None \<Rightarrow> (0, w)))"

text \<open>
  \<^verbatim>\<open>get_file_attributes\<close>. The foreign function is called without a declared result type,
  so \<^verbatim>\<open>ctypes\<close> returns the attribute word as a signed C \<^verbatim>\<open>int\<close>; the comparison with
  \<open>0xFFFFFFFF\<close> is made on Python integers.
\<close>

definition get_file_attributes :: "world \<Rightarrow> path \<Rightarrow> error + int" where
  "get_file_attributes w p =
     (let attr = sint (GetFileAttributesW w p)
      in if attr = INVALID_FILE_ATTRIBUTES then Inl FileNotFoundError else Inr attr)"

definition set_file_attributes :: "world \<Rightarrow> path \<Rightarrow> int \<Rightarrow> (error + unit) \<times> world" where
  "set_file_attributes w p attributes =
     (let r = SetFileAttributesW w p (word_of_int attributes)
      in if fst r = 0 then (Inl OSError, snd r) else (Inr (), snd r))"

definition ensure_folder_system :: "world \<Rightarrow> path \<Rightarrow> (error + unit) \<times> world" where
  "ensure_folder_system w folder =
     (case get_file_attributes w folder of
        Inl err \<Rightarrow> (Inl err, w)
      | Inr attributes \<Rightarrow>
          if attributes AND FILE_ATTRIBUTE_SYSTEM \<noteq> 0 then (Inr (), w)
          else set_file_attributes w folder (attributes OR FILE_ATTRIBUTE_SYSTEM))"

definition ensure_ini_hidden_system :: "world \<Rightarrow> path \<Rightarrow> (error + unit) \<times> world" where
  "ensure_ini_hidden_system w ini_path =
     (case get_file_attributes w ini_path of
        Inl err \<Rightarrow> (Inl err, w)
      | Inr attributes \<Rightarrow>
          (let target = attributes OR FILE_ATTRIBUTE_HIDDEN OR FILE_ATTRIBUTE_SYSTEM
           in if target \<noteq> attributes then set_file_attributes w ini_path target
              else (Inr (), w)))"

subsection \<open>Reading and writing the sidecar file\<close>

text \<open>Opening a path for reading: its bytes, or None when the call raises (the path is a
  directory or does not exist).\<close>

definition read_bytes :: "world \<Rightarrow> path \<Rightarrow> byte list option" where
  "read_bytes w p = (if dirs w p \<noteq> None then None else map_option content (files w p))"

text \<open>One iteration of the loop of \<^verbatim>\<open>safe_read_config\<close>: the exception raised by
  \<^verbatim>\<open>read_text\<close> or \<^verbatim>\<open>read_string\<close>, if any, and the parser as the iteration leaves it.\<close>

definition attempt ::
  "codepage \<Rightarrow> byte list option \<Rightarrow> str ConfigParser \<Rightarrow> encoding \<Rightarrow> error option \<times> str ConfigParser" where
  "attempt mbcs raw parser enc =
     (case raw of
        None \<Rightarrow> (Some PermissionError, parser)
      | Some bs \<Rightarrow>
         (case read_text mbcs enc bs of
            None \<Rightarrow> (Some UnicodeDecodeError, parser)
          | Some text \<Rightarrow> read_string parser text))"

text \<open>The loop: any exception moves on to the next encoding, with the same parser object;
  the first encoding that raises nothing returns.\<close>

fun try_encodings ::
  "codepage \<Rightarrow> byte list option \<Rightarrow> str ConfigParser \<Rightarrow> encoding list \<Rightarrow> str ConfigParser" where
  "try_encodings mbcs raw parser [] = parser"
| "try_encodings mbcs raw parser (enc # encs) =
     (case attempt mbcs raw parser enc of
        (None, parser') \<Rightarrow> parser'
      | (Some err, parser') \<Rightarrow> try_encodings mbcs raw parser' encs)"

definition safe_read_config :: "codepage \<Rightarrow> world \<Rightarrow> path \<Rightarrow> str ConfigParser" where
  "safe_read_config mbcs w ini_path =
     (if \<not> exists w ini_path then new_parser
      else try_encodings mbcs (read_bytes w ini_path) new_parser [UTF16, UTF8_SIG, MBCS])"

text \<open>
  Writing through a text file opened with \<^verbatim>\<open>encoding="utf-16"\<close>: each string passed to
  \<^verbatim>\<open>write\<close> has its newlines translated and is encoded at once; the byte order mark goes
  before the first one. When a string cannot be encoded the exception leaves the file with
  what was written before.
\<close>

fun write_all :: "bool \<Rightarrow> str list \<Rightarrow> error option \<times> byte list" where
  "write_all first [] = (None, [])"
| "write_all first (s # ss) =
     (case utf16_le_encode (write_newlines s) of
        None \<Rightarrow> (Some UnicodeEncodeError, [])
      | Some bs \<Rightarrow>
         (let r = write_all False ss
          in (fst r, (if first then BOM_LE else []) @ bs @ snd r)))"

text \<open>
  \<^verbatim>\<open>open(path, "w")\<close> reaches \<^verbatim>\<open>CreateFileW\<close> with \<^verbatim>\<open>CREATE_ALWAYS\<close> and
  \<^verbatim>\<open>FILE_ATTRIBUTE_NORMAL\<close>. Windows refuses that call with \<^verbatim>\<open>ERROR_ACCESS_DENIED\<close>, which
  Python raises as \<^verbatim>\<open>PermissionError\<close>, when the file exists and has the attribute
  \<^verbatim>\<open>FILE_ATTRIBUTE_HIDDEN\<close> or \<^verbatim>\<open>FILE_ATTRIBUTE_SYSTEM\<close>.
\<close>

definition hidden_or_system :: "32 word \<Rightarrow> bool" where
  "hidden_or_system a \<longleftrightarrow>
     a AND word_of_int (FILE_ATTRIBUTE_HIDDEN OR FILE_ATTRIBUTE_SYSTEM) \<noteq> 0"

definition create_refused :: "world \<Rightarrow> path \<Rightarrow> bool" where
  "create_refused w p \<longleftrightarrow>
     (case files w p of Some f \<Rightarrow> hidden_or_system (fattrs f) | None \<Rightarrow> False)"

text \<open>\<^verbatim>\<open>write_config\<close>: the file is created or truncated (an existing file keeps its
  attributes), then the parser writes itself.\<close>

definition write_config :: "world \<Rightarrow> path \<Rightarrow> str ConfigParser \<Rightarrow> (error + unit) \<times> world" where
  "write_config w ini_path parser =
     (if dirs w ini_path \<noteq> None then (Inl PermissionError, w)
      else if dirs w (butlast ini_path) = None then (Inl FileNotFoundError, w)
      else if create_refused w ini_path then (Inl PermissionError, w)
      else
        (let r = write_all True (write_parser parser);
             a = (case files w ini_path of Some f \<Rightarrow> fattrs f | None \<Rightarrow> FILE_ATTRIBUTE_ARCHIVE);
             w' = w\<lparr>files := (files w)(ini_path \<mapsto> \<lparr>content = snd r, fattrs = a\<rparr>),
                    log := log w @ [WriteFile ini_path (snd r)]\<rparr>
         in case fst r of
              Some err \<Rightarrow> (Inl err, w')
            | None \<Rightarrow> (Inr (), w')))"

text \<open>\<^verbatim>\<open>Path.unlink()\<close>.\<close>

definition unlink :: "world \<Rightarrow> path \<Rightarrow> (error + unit) \<times> world" where
  "unlink w p =
     (if dirs w p \<noteq> None then (Inl PermissionError, w)
      else if files w p = None then (Inl FileNotFoundError, w)
      else (Inr (), w\<lparr>files := (files w)(p := None), log := log w @ [Unlink p]\<rparr>))"

section \<open>The remark service\<close>

definition SECTION :: str where
  "SECTION = py ''.ShellClassInfo''"

definition INFOTIP :: str where
  "INFOTIP = py ''InfoTip''"

definition desktop_ini :: "path \<Rightarrow> path" where
  "desktop_ini folder = folder @ [py ''desktop.ini'']"

text \<open>\<^verbatim>\<open>read_info_tip\<close>: the loop over the options returns at the first name that lowers to
  \<^verbatim>\<open>infotip\<close>.\<close>

fun first_info_tip :: "lowering \<Rightarrow> str ConfigParser \<Rightarrow> str list \<Rightarrow> error + str" where
  "first_info_tip lower parser [] = Inr []"
| "first_info_tip lower parser (option # rest) =
     (if lower option = py ''infotip'' then get parser SECTION option []
      else first_info_tip lower parser rest)"

text \<open>The part of \<^verbatim>\<open>read_info_tip\<close> after the parser is loaded.\<close>

definition info_tip_of :: "lowering \<Rightarrow> str ConfigParser \<Rightarrow> error + str" where
  "info_tip_of lower parser =
     (if \<not> has_section parser SECTION then Inr []
      else (case options parser SECTION of
              Inl err \<Rightarrow> Inl err
            | Inr opts \<Rightarrow> first_info_tip lower parser opts))"

definition read_info_tip :: "codepage \<Rightarrow> lowering \<Rightarrow> world \<Rightarrow> path \<Rightarrow> error + str" where
  "read_info_tip mbcs lower w folder =
     info_tip_of lower (safe_read_config mbcs w (desktop_ini folder))"

text \<open>The loop of \<^verbatim>\<open>write_info_tip\<close> that removes every spelling of the key.\<close>

fun remove_info_tips ::
  "lowering \<Rightarrow> str ConfigParser \<Rightarrow> str list \<Rightarrow> error + str ConfigParser" where
  "remove_info_tips lower parser [] = Inr parser"
| "remove_info_tips lower parser (option # rest) =
     (if lower option = py ''infotip'' then
        (case remove_option parser SECTION option of
           Inl err \<Rightarrow> Inl err
         | Inr parser' \<Rightarrow> remove_info_tips lower parser' rest)
      else remove_info_tips lower parser rest)"

text \<open>The part of \<^verbatim>\<open>write_info_tip\<close> that edits the parser, up to the test
  \<^verbatim>\<open>if not parser.sections()\<close>.\<close>

definition edit_parser ::
  "lowering \<Rightarrow> str ConfigParser \<Rightarrow> str \<Rightarrow> error + str ConfigParser" where
  "edit_parser lower parser0 remark =
     (case (if SECTION \<notin> set (sections_of parser0) then add_section parser0 SECTION
            else Inr parser0) of
        Inl err \<Rightarrow> Inl err
      | Inr parser1 \<Rightarrow>
         (case options parser1 SECTION of
            Inl err \<Rightarrow> Inl err
          | Inr opts \<Rightarrow>
             (case remove_info_tips lower parser1 opts of
                Inl err \<Rightarrow> Inl err
              | Inr parser2 \<Rightarrow>
                 if remark \<noteq> [] then set_option parser2 SECTION INFOTIP remark
                 else
                   (case (if has_option parser2 SECTION INFOTIP
                          then remove_option parser2 SECTION INFOTIP else Inr parser2) of
                      Inl err \<Rightarrow> Inl err
                    | Inr parser3 \<Rightarrow>
                       (case items parser3 SECTION of
                          Inl err \<Rightarrow> Inl err
                        | Inr its \<Rightarrow>
                           Inr (if its = [] then remove_section parser3 SECTION else parser3))))))"

definition write_info_tip ::
  "codepage \<Rightarrow> lowering \<Rightarrow> world \<Rightarrow> path \<Rightarrow> str \<Rightarrow> (error + unit) \<times> world" where
  "write_info_tip mbcs lower w folder remark =
     (if \<not> exists w folder then (Inl FileNotFoundError, w)
      else
        (case ensure_folder_system w folder of
           (Inl err, w1) \<Rightarrow> (Inl err, w1)
         | (Inr _, w1) \<Rightarrow>
            (let ini_path = desktop_ini folder in
             case edit_parser lower (safe_read_config mbcs w1 ini_path) remark of
               Inl err \<Rightarrow> (Inl err, w1)
             | Inr parser \<Rightarrow>
                 if sections_of parser = [] then
                   (if exists w1 ini_path then unlink w1 ini_path else (Inr (), w1))
                 else
                   (case write_config w1 ini_path parser of
                      (Inl err, w2) \<Rightarrow> (Inl err, w2)
                    | (Inr _, w2) \<Rightarrow> ensure_ini_hidden_system w2 ini_path))))"


subsection \<open>Listing the subfolders\<close>

text \<open>
  What \<^verbatim>\<open>os.scandir(parent)\<close> does is given by the platform: the call raises, or it yields
  entries and then ends, normally or with an exception of the iterator. For each entry
  \<^verbatim>\<open>entry.is_dir(follow_symlinks=False)\<close> returns a boolean or raises.
\<close>

datatype is_dir_result = IsDir bool | IsDirRaises error

record DirEntry =
  entry_name :: str
  is_dir :: is_dir_result

datatype scandir_result = ScandirRaises error | Entries "DirEntry list" "error option"

record DesktopIniService =
  skip_names :: "str set"

definition DEFAULT_SKIP_NAMES :: "str set" where
  "DEFAULT_SKIP_NAMES = {py ''$RECYCLE.BIN'', py ''System Volume Information''}"

text \<open>\<^verbatim>\<open>DesktopIniService.__init__\<close>.\<close>

definition init_service :: "lowering \<Rightarrow> str set \<Rightarrow> DesktopIniService" where
  "init_service lower names = \<lparr>skip_names = lower ` names\<rparr>"

text \<open>The body of the \<^verbatim>\<open>for\<close> loop; Inl is an exception that leaves the loop.\<close>

fun scan_entries ::
  "lowering \<Rightarrow> DesktopIniService \<Rightarrow> path \<Rightarrow> DirEntry list \<Rightarrow> path list \<Rightarrow>
     error + path list" where
  "scan_entries lower svc parent [] subfolders = Inr subfolders"
| "scan_entries lower svc parent (entry # rest) subfolders =
     (case is_dir entry of
        IsDirRaises err \<Rightarrow>
          if err = PermissionError then scan_entries lower svc parent rest subfolders else Inl err
      | IsDir b \<Rightarrow>
          if \<not> b then scan_entries lower svc parent rest subfolders
          else if lower (entry_name entry) \<in> skip_names svc
          then scan_entries lower svc parent rest subfolders
          else scan_entries lower svc parent rest (subfolders @ [parent @ [entry_name entry]]))"

text \<open>\<^verbatim>\<open>sorted(subfolders)\<close>: Windows paths compare by their parts in lower case, and
  \<^verbatim>\<open>sorted\<close> is stable.\<close>

definition sorted_paths :: "lowering \<Rightarrow> path list \<Rightarrow> path list" where
  "sorted_paths lower ps = sort_key (map lower) ps"

definition list_subfolders ::
  "lowering \<Rightarrow> DesktopIniService \<Rightarrow> world \<Rightarrow> (path \<Rightarrow> scandir_result) \<Rightarrow> path \<Rightarrow>
     error + path list" where
  "list_subfolders lower svc w scandir parent =
     (if \<not> exists w parent then Inr []
      else
        (case scandir parent of
           ScandirRaises err \<Rightarrow> if err = PermissionError then Inr [] else Inl err
         | Entries entries ending \<Rightarrow>
            (case scan_entries lower svc parent entries [] of
               Inl err \<Rightarrow> Inl err
             | Inr subfolders \<Rightarrow>
                (case ending of
                   None \<Rightarrow> Inr (sorted_paths lower subfolders)
                 | Some err \<Rightarrow> if err = PermissionError then Inr subfolders else Inl err))))"

section \<open>Saving a batch of remarks\<close>

record FolderRemark =
  name :: str
  path :: path
  original_remark :: str
  current_remark :: str

text \<open>The list comprehension of \<^verbatim>\<open>_save_changes\<close>.\<close>

definition changed_rows :: "FolderRemark list \<Rightarrow> FolderRemark list" where
  "changed_rows rows = filter (\<lambda>row. current_remark row \<noteq> original_remark row) rows"

text \<open>
  The loop of \<^verbatim>\<open>_save_changes\<close> over the changed rows. It returns the world, the rows as the
  loop leaves them (they are objects changed in place), \<^verbatim>\<open>success_items\<close> and
  \<^verbatim>\<open>failed_items\<close>; the reason of a failure is the exception.
\<close>

fun save_loop ::
  "codepage \<Rightarrow> lowering \<Rightarrow> world \<Rightarrow> FolderRemark list \<Rightarrow>
     world \<times> FolderRemark list \<times> str list \<times> (str \<times> error) list" where
  "save_loop mbcs lower w [] = (w, [], [], [])"
| "save_loop mbcs lower w (row # rows) =
     (case write_info_tip mbcs lower w (path row) (current_remark row) of
        (Inr _, w1) \<Rightarrow>
          (case save_loop mbcs lower w1 rows of
             (w', rows', success_items, failed_items) \<Rightarrow>
               (w', row\<lparr>original_remark := current_remark row\<rparr> # rows',
                name row # success_items, failed_items))
      | (Inl exc, w1) \<Rightarrow>
          (case save_loop mbcs lower w1 rows of
             (w', rows', success_items, failed_items) \<Rightarrow>
               (w', row # rows', success_items, (name row, exc) # failed_items)))"

definition save_changes ::
  "codepage \<Rightarrow> lowering \<Rightarrow> world \<Rightarrow> FolderRemark list \<Rightarrow>
     world \<times> FolderRemark list \<times> str list \<times> (str \<times> error) list" where
  "save_changes mbcs lower w rows = save_loop mbcs lower w (changed_rows rows)"

section \<open>Forwarding a path to the running instance\<close>

text \<open>\<^verbatim>\<open>payload.encode("utf-8")\<close>: a surrogate cannot be encoded.\<close>

definition utf8_bytes :: "nat \<Rightarrow> byte list" where
  "utf8_bytes c =
     (if c < 0x80 then [of_nat c]
      else if c < 0x800 then [of_nat (0xC0 + c div 64), of_nat (0x80 + c mod 64)]
      else if c < 0x10000 then
        [of_nat (0xE0 + c div 4096), of_nat (0x80 + c div 64 mod 64), of_nat (0x80 + c mod 64)]
      else
        [of_nat (0xF0 + c div 262144), of_nat (0x80 + c div 4096 mod 64),
         of_nat (0x80 + c div 64 mod 64), of_nat (0x80 + c mod 64)])"

definition utf8_encode :: "str \<Rightarrow> byte list option" where
  "utf8_encode s = (if list_all encodable s then Some (concat (map utf8_bytes s)) else None)"

text \<open>
  The network is given by the platform: whether \<^verbatim>\<open>socket.create_connection\<close> returns within
  its timeout of one second, and whether \<^verbatim>\<open>sendall\<close> then sends the bytes. Each failure is
  an \<^verbatim>\<open>OSError\<close> (a refused connection, a timeout).
\<close>

record endpoint =
  connects :: bool
  sends :: "byte list \<Rightarrow> bool"

definition send_payload :: "endpoint \<Rightarrow> str \<Rightarrow> error + bool" where
  "send_payload ep payload =
     (if \<not> connects ep then Inr False
      else (case utf8_encode payload of
              None \<Rightarrow> Inl UnicodeEncodeError
            | Some bs \<Rightarrow> if sends ep bs then Inr True else Inr False))"

section \<open>Notions used to state and prove the properties\<close>

text \<open>A document that holds nothing but keys spelling \<^verbatim>\<open>InfoTip\<close> in some casing, in the
  section \<^verbatim>\<open>.ShellClassInfo\<close>; the empty document is one.\<close>

definition only_info_tip :: "lowering \<Rightarrow> str ConfigParser \<Rightarrow> bool" where
  "only_info_tip lower p \<longleftrightarrow>
     defaults p = [] \<and>
     (case sections p of
        [] \<Rightarrow> True
      | [sd] \<Rightarrow> fst sd = SECTION \<and> list_all (\<lambda>kv. lower (fst kv) = py ''infotip'') (snd sd)
      | _ \<Rightarrow> False)"

text \<open>The document \<^verbatim>\<open>write_info_tip\<close> builds from such a document and a remark.\<close>

definition info_doc :: "str \<Rightarrow> str ConfigParser" where
  "info_doc r = \<lparr>defaults = [], sections = [(SECTION, [(INFOTIP, r)])]\<rparr>"

definition empty_section_doc :: "str ConfigParser" where
  "empty_section_doc = \<lparr>defaults = [], sections = [(SECTION, [])]\<rparr>"

text \<open>The bytes \<^verbatim>\<open>write_config\<close> stores for a document, and the text \<^verbatim>\<open>read_text\<close> gives
  back for them.\<close>

definition utf16_bytes :: "str \<Rightarrow> byte list" where
  "utf16_bytes s = concat (map le_bytes (concat (map utf16_units s)))"

definition doc_bytes :: "str ConfigParser \<Rightarrow> byte list" where
  "doc_bytes p = BOM_LE @ utf16_bytes (write_newlines (concat (write_parser p)))"

definition doc_text :: "str ConfigParser \<Rightarrow> str" where
  "doc_text p = universal_newlines (write_newlines (concat (write_parser p)))"

definition encodable_doc :: "str ConfigParser \<Rightarrow> bool" where
  "encodable_doc p = list_all (list_all encodable) (write_parser p)"

text \<open>
  The batch save as the specification words it: each dirty entry is written on its own, in
  order, whatever happened to the entries before it. \<open>spec_attempts\<close> lists the outcome of
  every write, and \<open>report_row\<close> is the entry after its write: \<^verbatim>\<open>original_remark\<close> takes the
  value of \<^verbatim>\<open>current_remark\<close> when the write succeeded and only then.
\<close>

fun spec_attempts ::
  "codepage \<Rightarrow> lowering \<Rightarrow> world \<Rightarrow> FolderRemark list \<Rightarrow> ((error + unit) \<times> world) list" where
  "spec_attempts mbcs lower w [] = []"
| "spec_attempts mbcs lower w (row # rows) =
     (let a = write_info_tip mbcs lower w (path row) (current_remark row)
      in a # spec_attempts mbcs lower (snd a) rows)"

definition report_row :: "FolderRemark \<Rightarrow> (error + unit) \<times> world \<Rightarrow> FolderRemark" where
  "report_row row a = (if isl (fst a) then row else row\<lparr>original_remark := current_remark row\<rparr>)"

section \<open>Concrete inputs\<close>

text \<open>The inputs at which the properties below are instantiated or evaluated.\<close>

text \<open>The ANSI code page Windows-1252: every byte is one character.\<close>

definition cp1252_char :: "byte \<Rightarrow> nat" where
  "cp1252_char b =
     (if 0x80 \<le> unat b \<and> unat b \<le> 0x9F then
        [0x20AC, 0x81, 0x201A, 0x192, 0x201E, 0x2026, 0x2020, 0x2021,
         0x2C6, 0x2030, 0x160, 0x2039, 0x152, 0x8D, 0x17D, 0x8F,
         0x90, 0x2018, 0x2019, 0x201C, 0x201D, 0x2022, 0x2013, 0x2014,
         0x2DC, 0x2122, 0x161, 0x203A, 0x153, 0x9D, 0x17E, 0x178] ! (unat b - 0x80)
      else unat b)"

definition cp1252 :: codepage where
  "cp1252 bs = Some (map cp1252_char bs)"

text \<open>\<^verbatim>\<open>str.lower\<close> on ASCII strings, which the strings of the examples are: the letters
  \<^verbatim>\<open>A\<close> to \<^verbatim>\<open>Z\<close> go to \<^verbatim>\<open>a\<close> to \<^verbatim>\<open>z\<close>. (On other strings this function is not
  \<^verbatim>\<open>str.lower\<close>: it leaves every character outside ASCII as it is.)\<close>

definition lower_ascii :: lowering where
  "lower_ascii s = map (\<lambda>c. if 65 \<le> c \<and> c \<le> 90 then c + 32 else c) s"

definition empty_world :: world where
  "empty_world = \<lparr>dirs = Map.empty, files = Map.empty, log = []\<rparr>"

definition photos :: path where
  "photos = [py ''D:'', py ''photos'']"

text \<open>A folder without a sidecar file.\<close>

definition fresh_world :: world where
  "fresh_world = \<lparr>dirs = [photos \<mapsto> 0x10], files = Map.empty, log = []\<rparr>"

text \<open>A folder whose sidecar file holds one remark, hidden and system as the program leaves it.\<close>

definition noted_world :: world where
  "noted_world =
     \<lparr>dirs = [photos \<mapsto> 0x14],
      files = [desktop_ini photos \<mapsto> \<lparr>content = doc_bytes (info_doc (py ''summer'')), fattrs = 0x26\<rparr>],
      log = []\<rparr>"

text \<open>A remark with a carriage return, and the sidecar file the program writes for it:
  \<^verbatim>\<open>[.ShellClassInfo]\<close>, \<^verbatim>\<open>InfoTip = a\<close>, \<^verbatim>\<open>b\<close> and an empty line, in UTF-16 with a byte
  order mark; the line \<^verbatim>\<open>b\<close> ends with a lone carriage return before it.\<close>

definition cr_remark :: str where
  "cr_remark = py ''a'' @ [13] @ py ''b''"

definition cr_world :: world where
  "cr_world =
     \<lparr>dirs = [photos \<mapsto> 0x14],
      files = [desktop_ini photos \<mapsto> \<lparr>content = doc_bytes (info_doc cr_remark), fattrs = 0x26\<rparr>],
      log = []\<rparr>"

text \<open>A sidecar file, as another program may write it, whose remark ends with a percent sign.\<close>

definition percent_world :: world where
  "percent_world =
     \<lparr>dirs = [photos \<mapsto> 0x14],
      files = [desktop_ini photos \<mapsto> \<lparr>content = doc_bytes (info_doc (py ''5%'')), fattrs = 0x26\<rparr>],
      log = []\<rparr>"



text \<open>A directory listing with a skipped name in another casing, and one whose iterator
  raises after two entries.\<close>

definition scan_ok :: "path \<Rightarrow> scandir_result" where
  "scan_ok p =
     Entries [\<lparr>entry_name = py ''$Recycle.Bin'', is_dir = IsDir True\<rparr>,
              \<lparr>entry_name = py ''docs'', is_dir = IsDir True\<rparr>] None"

definition scan_denied :: "path \<Rightarrow> scandir_result" where
  "scan_denied p =
     Entries [\<lparr>entry_name = py ''b'', is_dir = IsDir True\<rparr>,
              \<lparr>entry_name = py ''a'', is_dir = IsDir True\<rparr>] (Some PermissionError)"

text \<open>Three dirty entries; the folder of the second does not exist.\<close>

definition albums :: path where
  "albums = [py ''D:'', py ''albums'']"

definition gone :: path where
  "gone = [py ''D:'', py ''gone'']"

definition batch_world :: world where
  "batch_world = \<lparr>dirs = [photos \<mapsto> 0x10, albums \<mapsto> 0x10], files = Map.empty, log = []\<rparr>"

definition batch_rows :: "FolderRemark list" where
  "batch_rows =
     [\<lparr>name = py ''photos'', path = photos, original_remark = [], current_remark = py ''x''\<rparr>,
      \<lparr>name = py ''gone'', path = gone, original_remark = [], current_remark = py ''y''\<rparr>,
      \<lparr>name = py ''albums'', path = albums, original_remark = [], current_remark = py ''z''\<rparr>]"

section \<open>Properties\<close>

subsection \<open>The existence test\<close>

lemma write_info_tip_absent:
  "\<not> exists w folder \<Longrightarrow> write_info_tip mbcs lower w folder remark = (Inl FileNotFoundError, w)"
  by (simp add: write_info_tip_def)

subsection \<open>Strings\<close>

lemma rstrip_keep: "s = [] \<or> \<not> isspace (last s) \<Longrightarrow> rstrip s = s"
  by (cases s rule: rev_cases) (auto simp: rstrip_def)

lemma rstrip_drop: "isspace x \<Longrightarrow> rstrip (s @ [x]) = rstrip s"
  by (simp add: rstrip_def)

lemma lstrip_keep: "s = [] \<or> \<not> isspace (hd s) \<Longrightarrow> lstrip s = s"
  by (cases s) (auto simp: lstrip_def)

lemma lstrip_drop: "isspace x \<Longrightarrow> lstrip (x # s) = lstrip s"
  by (simp add: lstrip_def)

lemma strip_keep: "s \<noteq> [] \<Longrightarrow> \<not> isspace (hd s) \<Longrightarrow> \<not> isspace (last s) \<Longrightarrow> strip s = s"
  by (simp add: strip_def rstrip_keep lstrip_keep)

lemma isspace_10: "isspace 10"
  by (simp add: isspace_def)

lemma isspace_32: "isspace 32"
  by (simp add: isspace_def)

lemma rstrip_append: "rstrip (x @ r) = (if rstrip r = [] then rstrip x else x @ rstrip r)"
  by (auto simp: rstrip_def dropWhile_append)

lemma rstrip_last: "rstrip r \<noteq> [] \<Longrightarrow> \<not> isspace (last (rstrip r))"
  using hd_dropWhile [of isspace "rev r"] by (simp add: rstrip_def last_rev)

lemma lstrip_hd: "lstrip r \<noteq> [] \<Longrightarrow> \<not> isspace (hd (lstrip r))"
  using hd_dropWhile [of isspace r] by (simp add: lstrip_def)

lemma lstrip_last: "lstrip r \<noteq> [] \<Longrightarrow> last (lstrip r) = last r"
  by (induction r) (auto simp: lstrip_def)

lemma strip_ends:
  assumes "strip r \<noteq> []"
  shows "\<not> isspace (hd (strip r)) \<and> \<not> isspace (last (strip r))"
proof -
  from assms have l: "lstrip (rstrip r) \<noteq> []" by (simp add: strip_def)
  then have "rstrip r \<noteq> []" by (auto simp: lstrip_def)
  then have "\<not> isspace (last (rstrip r))" by (rule rstrip_last)
  with lstrip_hd [OF l] lstrip_last [OF l] show ?thesis by (simp add: strip_def)
qed

lemma strip_Nil: "strip [] = []"
  by (simp add: strip_def rstrip_def lstrip_def)

lemma strip_strip: "strip (strip r) = strip r"
proof (cases "strip r = []")
  case True
  then show ?thesis by (simp add: strip_Nil)
next
  case False
  with strip_ends [OF False] show ?thesis by (simp add: strip_keep)
qed

lemma rstrip_strip_nl: "rstrip (strip r @ [10]) = strip r"
proof (cases "strip r = []")
  case True
  then show ?thesis by (simp add: rstrip_def isspace_def)
next
  case False
  have "rstrip (strip r @ [10]) = rstrip (strip r)" by (rule rstrip_drop) (rule isspace_10)
  also have "\<dots> = strip r" using strip_ends [OF False] by (simp add: rstrip_keep)
  finally show ?thesis .
qed

lemma set_strip: "set (strip r) \<subseteq> set r"
proof -
  have "set (rstrip r) \<subseteq> set r"
    using set_dropWhileD [of _ isspace "rev r"] by (auto simp: rstrip_def)
  moreover have "set (lstrip (rstrip r)) \<subseteq> set (rstrip r)"
    using set_dropWhileD [of _ isspace "rstrip r"] by (auto simp: lstrip_def)
  ultimately show ?thesis by (auto simp: strip_def)
qed

lemma readlines_line: "10 \<notin> set a \<Longrightarrow> readlines (a @ 10 # rest) = (a @ [10]) # readlines rest"
  by (induction a) auto

lemma find_char_None: "c \<notin> set s \<Longrightarrow> find_char c s = None"
  by (induction s) auto

subsection \<open>Interpolation of a value without a percent sign\<close>

lemma before_get_plain: "37 \<notin> set v \<Longrightarrow> before_get m v = Inr v"
  by (simp add: before_get_def interpolate_some.simps [of m v "Suc 0"] MAX_INTERPOLATION_DEPTH_def
        find_char_None)

lemma remove_pp_subset: "set (remove_pp s) \<subseteq> set s"
  by (induction s rule: remove_pp.induct) auto

lemma keycre_sub_subset: "set (keycre_sub s) \<subseteq> set s"
proof (induction s rule: keycre_sub.induct)
  case 1
  then show ?case by simp
next
  case (2 c cs)
  show ?case
  proof (cases "keycre_match (c # cs)")
    case None
    with 2 show ?thesis by auto
  next
    case (Some a)
    obtain nm n where a: "a = (nm, n)" by (cases a)
    from 2(2) [OF Some a [symmetric]]
    have "set (keycre_sub (drop (n - 1) cs)) \<subseteq> set (drop (n - 1) cs)" .
    moreover have "set (drop (n - 1) cs) \<subseteq> set cs" by (rule set_drop_subset)
    ultimately show ?thesis using Some a by auto
  qed
qed

lemma before_set_plain: "37 \<notin> set v \<Longrightarrow> before_set v = Inr v"
  using keycre_sub_subset [of "remove_pp v"] remove_pp_subset [of v]
  by (auto simp: before_set_def)

subsection \<open>Newlines and UTF-16\<close>

lemma universal_newlines_Cons: "c \<noteq> 13 \<Longrightarrow> universal_newlines (c # s) = c # universal_newlines s"
  by (cases s) auto

lemma universal_write_newlines: "13 \<notin> set s \<Longrightarrow> universal_newlines (write_newlines s) = s"
  by (induction s) (auto simp: write_newlines_def universal_newlines_Cons)

lemma write_newlines_append: "write_newlines (a @ b) = write_newlines a @ write_newlines b"
  by (simp add: write_newlines_def)

lemma encodable_write_newlines: "list_all encodable s \<Longrightarrow> list_all encodable (write_newlines s)"
  by (induction s) (auto simp: write_newlines_def encodable_def)

lemma le_bytes_units:
  assumes "u < 65536"
  shows "units_le (le_bytes u @ bs) = map_option (Cons u) (units_le bs)"
proof -
  have "unat (of_nat (u mod 256) :: byte) = u mod 256" by (simp add: unat_of_nat)
  moreover from assms have "u div 256 < 256" by simp
  then have "unat (of_nat (u div 256) :: byte) = u div 256" by (simp add: unat_of_nat)
  ultimately show ?thesis by (simp add: le_bytes_def)
qed

lemma units_le_concat: "list_all (\<lambda>u. u < 65536) us \<Longrightarrow> units_le (concat (map le_bytes us)) = Some us"
  by (induction us) (auto simp: le_bytes_units)

lemma utf16_units_bound: "encodable c \<Longrightarrow> list_all (\<lambda>u. u < 65536) (utf16_units c)"
  by (auto simp: utf16_units_def encodable_def)

lemma utf16_units_concat_bound:
  "list_all encodable s \<Longrightarrow> list_all (\<lambda>u. u < 65536) (concat (map utf16_units s))"
  by (induction s) (auto simp: utf16_units_bound)

lemma utf16_combine_units:
  assumes "encodable c"
  shows "utf16_combine (utf16_units c @ rest) = map_option (Cons c) (utf16_combine rest)"
proof (cases "c < 0x10000")
  case True
  with assms show ?thesis by (cases rest) (auto simp: utf16_units_def encodable_def)
next
  case False
  with assms have c: "0x10000 \<le> c" "c < 0x110000" by (auto simp: encodable_def)
  define d where "d = c - 0x10000"
  from c have d: "d < 0x100000" "c = 0x10000 + d" by (auto simp: d_def)
  then have hi: "d div 1024 < 1024" by simp
  have "utf16_units c = [0xD800 + d div 1024, 0xDC00 + d mod 1024]"
    using False by (simp add: utf16_units_def d_def)
  moreover have "65536 + (d div 1024 * 1024 + d mod 1024) = c" using d by simp
  ultimately show ?thesis using hi by (auto simp: add.commute)
qed

lemma utf16_combine_concat: "list_all encodable s \<Longrightarrow> utf16_combine (concat (map utf16_units s)) = Some s"
  by (induction s) (auto simp: utf16_combine_units)

lemma utf16_bytes_append: "utf16_bytes (a @ b) = utf16_bytes a @ utf16_bytes b"
  by (simp add: utf16_bytes_def)

lemma utf16_decode_bytes: "list_all encodable s \<Longrightarrow> utf16_decode (BOM_LE @ utf16_bytes s) = Some s"
  by (simp add: utf16_decode_def BOM_LE_def utf16_bytes_def units_le_concat utf16_units_concat_bound
        utf16_combine_concat)

lemma utf8_sig_decode_bom_le: "utf8_sig_decode (BOM_LE @ bs) = None"
  by (simp add: utf8_sig_decode_def BOM_LE_def BOM_UTF8_def)

lemma write_all_encodable:
  "list_all (list_all encodable) ps \<Longrightarrow>
     write_all first ps =
       (None, (if first \<and> ps \<noteq> [] then BOM_LE else []) @ utf16_bytes (write_newlines (concat ps)))"
proof (induction ps arbitrary: first)
  case Nil
  then show ?case by (simp add: utf16_bytes_def write_newlines_def)
next
  case (Cons p ps)
  then show ?case
    by (simp add: utf16_le_encode_def encodable_write_newlines write_newlines_append
          utf16_bytes_append) (simp add: utf16_bytes_def)
qed

lemma concat_encodable: "list_all (list_all encodable) ps \<Longrightarrow> list_all encodable (concat ps)"
  by (simp add: list_all_iff)

lemma read_text_doc:
  assumes "encodable_doc d"
  shows "read_text mbcs UTF16 (doc_bytes d) = Some (doc_text d)"
  using assms
  by (simp add: read_text_def doc_bytes_def doc_text_def utf16_decode_bytes encodable_write_newlines
        concat_encodable encodable_doc_def)

lemma doc_bytes_inject:
  assumes "encodable_doc d" and "encodable_doc d'" and "doc_bytes d = doc_bytes d'"
  shows "write_newlines (concat (write_parser d)) = write_newlines (concat (write_parser d'))"
proof -
  have "utf16_decode (doc_bytes d) = Some (write_newlines (concat (write_parser d)))"
    using assms(1)
    by (simp add: doc_bytes_def utf16_decode_bytes encodable_write_newlines concat_encodable
          encodable_doc_def)
  moreover have "utf16_decode (doc_bytes d') = Some (write_newlines (concat (write_parser d')))"
    using assms(2)
    by (simp add: doc_bytes_def utf16_decode_bytes encodable_write_newlines concat_encodable
          encodable_doc_def)
  ultimately show ?thesis using assms(3) by simp
qed

subsection \<open>Reading back the document of one remark\<close>

lemma header_line:
  "read_line \<lparr>cfg = \<lparr>defaults = [], sections = []\<rparr>, elements_added = [], sectname = None,
              optname = None, indent_level = 0, e = False\<rparr> (91 # SECTION @ [93, 10]) =
   Inr \<lparr>cfg = \<lparr>defaults = [], sections = [(SECTION, [])]\<rparr>, elements_added = [Inl SECTION],
        sectname = Some SECTION, optname = None, indent_level = 0, e = False\<rparr>"
  by (simp add: read_line_def is_comment_def strip_def rstrip_def lstrip_def isspace_def SECTION_def
        sect_match_def dict_has_def dict_keys_def DEFAULTSECT_def Let_def)

lemma rstrip_option_line: "\<exists>t. rstrip (INFOTIP @ DELIMITER @ r) = 73 # t"
  by (simp add: rstrip_append [of INFOTIP] rstrip_append [of DELIMITER])
     (simp add: INFOTIP_def DELIMITER_def rstrip_def isspace_def)

lemma strip_option_line:
  "strip (INFOTIP @ DELIMITER @ r @ [10]) = rstrip (INFOTIP @ DELIMITER @ r)"
proof -
  have "rstrip ((INFOTIP @ DELIMITER @ r) @ [10]) = rstrip (INFOTIP @ DELIMITER @ r)"
    by (rule rstrip_drop) (simp add: isspace_def)
  moreover from rstrip_option_line [of r]
  have "lstrip (rstrip (INFOTIP @ DELIMITER @ r)) = rstrip (INFOTIP @ DELIMITER @ r)"
    by (auto simp: lstrip_def isspace_def)
  ultimately show ?thesis by (simp add: strip_def)
qed

lemma opt_match_option_line:
  "opt_match (rstrip (INFOTIP @ DELIMITER @ r)) = Some (INFOTIP, strip r)"
proof (cases "rstrip r = []")
  case True
  then have "rstrip (INFOTIP @ DELIMITER @ r) = INFOTIP @ [32, 61]"
    by (simp add: rstrip_append [of INFOTIP] rstrip_append [of DELIMITER])
       (simp add: INFOTIP_def DELIMITER_def rstrip_def isspace_def)
  moreover have "opt_match (INFOTIP @ [32, 61]) = Some (INFOTIP, [])"
    by (simp add: opt_match_def INFOTIP_def rstrip_def lstrip_def isspace_def)
  ultimately show ?thesis using True by (simp add: strip_def lstrip_def)
next
  case False
  then have e: "rstrip (INFOTIP @ DELIMITER @ r) = INFOTIP @ DELIMITER @ rstrip r"
    by (simp add: rstrip_append [of INFOTIP] rstrip_append [of DELIMITER])
  have "find_delim (INFOTIP @ DELIMITER @ rstrip r) = Some 8"
    by (simp add: INFOTIP_def DELIMITER_def)
  moreover have "rstrip (take 8 (INFOTIP @ DELIMITER @ rstrip r)) = INFOTIP"
    by (simp add: INFOTIP_def DELIMITER_def rstrip_def isspace_def)
  moreover have "lstrip (drop 9 (INFOTIP @ DELIMITER @ rstrip r)) = strip r"
    by (simp add: INFOTIP_def DELIMITER_def lstrip_drop isspace_32 strip_def)
  ultimately show ?thesis by (simp add: opt_match_def e)
qed

lemma option_line:
  "read_line \<lparr>cfg = \<lparr>defaults = [], sections = [(SECTION, [])]\<rparr>, elements_added = [Inl SECTION],
        sectname = Some SECTION, optname = None, indent_level = 0, e = False\<rparr>
      (INFOTIP @ DELIMITER @ r @ [10]) =
   Inr \<lparr>cfg = \<lparr>defaults = [], sections = [(SECTION, [(INFOTIP, Lines [strip r])])]\<rparr>,
        elements_added = [Inr (SECTION, INFOTIP), Inl SECTION],
        sectname = Some SECTION, optname = Some INFOTIP, indent_level = 0, e = False\<rparr>"
proof -
  let ?v = "rstrip (INFOTIP @ DELIMITER @ r)"
  note t = rstrip_option_line [of r]
  have s: "strip (INFOTIP @ DELIMITER @ r @ [10]) = ?v" by (rule strip_option_line)
  have c: "\<not> is_comment (INFOTIP @ DELIMITER @ r @ [10])"
    using t by (auto simp: is_comment_def s)
  have i: "takeWhile isspace (INFOTIP @ DELIMITER @ r @ [10]) = []"
    by (simp add: INFOTIP_def isspace_def)
  have m: "sect_match ?v = None" using t by (auto simp: sect_match_def)
  have ne: "?v \<noteq> []" using t by auto
  have k: "INFOTIP \<noteq> []" by (simp add: INFOTIP_def)
  show ?thesis
    by (simp add: read_line_def s c i m ne k opt_match_option_line strip_strip Let_def
          cursect_set_def)
qed

lemma blank_line:
  "read_line \<lparr>cfg = \<lparr>defaults = [], sections = [(SECTION, [(INFOTIP, Lines ls)])]\<rparr>,
        elements_added = ea, sectname = Some SECTION, optname = Some INFOTIP,
        indent_level = 0, e = b\<rparr> [10] =
   Inr \<lparr>cfg = \<lparr>defaults = [], sections = [(SECTION, [(INFOTIP, Lines (ls @ [[]]))])]\<rparr>,
        elements_added = ea, sectname = Some SECTION, optname = Some INFOTIP,
        indent_level = 0, e = b\<rparr>"
  by (simp add: read_line_def is_comment_def strip_def rstrip_def lstrip_def isspace_def
        cursect_append_def cursect_def cursect_set_def INFOTIP_def)

lemma indent_value_single_line: "10 \<notin> set r \<Longrightarrow> indent_value r = r"
  by (induction r) (auto simp: indent_value_def)

lemma write_parser_info_doc:
  "10 \<notin> set r \<Longrightarrow>
   write_parser (info_doc r) = [91 # SECTION @ [93, 10], INFOTIP @ DELIMITER @ r @ [10], [10]]"
  by (simp add: write_parser_def info_doc_def write_section_def indent_value_single_line)

lemma read_string_info_doc:
  assumes "10 \<notin> set r"
  shows "read_string new_parser (concat (write_parser (info_doc r))) = (None, info_doc (strip r))"
proof -
  have c: "concat (write_parser (info_doc r)) =
       (91 # SECTION @ [93]) @ 10 # (INFOTIP @ DELIMITER @ r) @ 10 # [10]"
    by (simp add: write_parser_info_doc assms)
  have "readlines \<dots> = ((91 # SECTION @ [93]) @ [10]) # ((INFOTIP @ DELIMITER @ r) @ [10]) # [[10]]"
    using assms
    by (subst readlines_line, simp add: SECTION_def, subst readlines_line,
        simp add: INFOTIP_def DELIMITER_def) simp
  then have l: "readlines (concat (write_parser (info_doc r))) =
      [91 # SECTION @ [93, 10], INFOTIP @ DELIMITER @ r @ [10], [10]]"
    by (simp add: c)
  have rl: "read_lines \<lparr>cfg = \<lparr>defaults = [], sections = []\<rparr>, elements_added = [], sectname = None,
              optname = None, indent_level = 0, e = False\<rparr>
            (readlines (concat (write_parser (info_doc r)))) =
        (None, \<lparr>cfg = \<lparr>defaults = [], sections = [(SECTION, [(INFOTIP, Lines [strip r, []])])]\<rparr>,
          elements_added = [Inr (SECTION, INFOTIP), Inl SECTION],
          sectname = Some SECTION, optname = Some INFOTIP, indent_level = 0, e = False\<rparr>)"
    by (simp add: l header_line option_line blank_line)
  show ?thesis
    unfolding read_string_def new_parser_def unjoined_def
    by (simp add: rl Let_def) (simp add: join_multiline_values_def rstrip_strip_nl info_doc_def)
qed

lemma encodable_info_doc: "list_all encodable r \<Longrightarrow> encodable_doc (info_doc r)"
proof -
  assume "list_all encodable r"
  then have "list_all encodable (indent_value r)"
    by (induction r) (auto simp: indent_value_def encodable_def)
  then show ?thesis
    by (simp add: encodable_doc_def write_parser_def info_doc_def write_section_def)
       (simp add: SECTION_def INFOTIP_def DELIMITER_def encodable_def)
qed

lemma doc_text_single_line:
  assumes "13 \<notin> set r" and "10 \<notin> set r"
  shows "doc_text (info_doc r) = concat (write_parser (info_doc r))"
proof -
  from assms have "13 \<notin> set (concat (write_parser (info_doc r)))"
    by (simp add: write_parser_info_doc) (simp add: SECTION_def INFOTIP_def DELIMITER_def)
  then show ?thesis by (simp add: doc_text_def universal_write_newlines)
qed

subsection \<open>The steps of write_info_tip\<close>

lemma sint_valid: "sint (a :: 32 word) \<noteq> INVALID_FILE_ATTRIBUTES"
proof -
  have "sint a < 2 ^ (LENGTH(32) - 1)" by (rule sint_lt)
  then show ?thesis by (simp add: INVALID_FILE_ATTRIBUTES_def)
qed

lemma desktop_ini_neq: "desktop_ini folder \<noteq> folder"
  by (simp add: desktop_ini_def)

lemma butlast_desktop_ini: "butlast (desktop_ini folder) = folder"
  by (simp add: desktop_ini_def)

lemma section_name: "SECTION \<noteq> []" "SECTION \<noteq> DEFAULTSECT"
  by (simp_all add: SECTION_def DEFAULTSECT_def)

lemma lower_INFOTIP: "lower_ascii INFOTIP = py ''infotip''"
  by (simp add: lower_ascii_def INFOTIP_def)

lemma ensure_folder_system_ok:
  assumes "dirs w folder = Some a"
  shows "\<exists>w1 a1 l. ensure_folder_system w folder = (Inr (), w1) \<and> files w1 = files w \<and>
           dirs w1 = (dirs w)(folder \<mapsto> a1) \<and> log w1 = log w @ l \<and>
           (l = [] \<or> l = [SetAttributes folder a1])"
proof (cases "sint a AND FILE_ATTRIBUTE_SYSTEM \<noteq> 0")
  case True
  with assms sint_valid [of a] have "ensure_folder_system w folder = (Inr (), w)"
    by (simp add: ensure_folder_system_def get_file_attributes_def GetFileAttributesW_def Let_def)
  moreover from assms have "dirs w = (dirs w)(folder \<mapsto> a)" by (simp add: fun_upd_idem)
  ultimately show ?thesis by auto
next
  case False
  let ?a = "word_of_int (sint a OR FILE_ATTRIBUTE_SYSTEM) :: 32 word"
  from False assms sint_valid [of a]
  have "ensure_folder_system w folder =
      (Inr (), w\<lparr>dirs := (dirs w)(folder \<mapsto> ?a), log := log w @ [SetAttributes folder ?a]\<rparr>)"
    by (simp add: ensure_folder_system_def get_file_attributes_def GetFileAttributesW_def
          set_file_attributes_def SetFileAttributesW_def Let_def)
  then show ?thesis by auto
qed

lemma hidden_or_system_set:
  "word_of_int (sint (a :: 32 word) OR 2 OR 4) AND (word_of_int (2 OR 4) :: 32 word) \<noteq> 0"
proof -
  have "bit (word_of_int (sint a OR 2 OR 4) AND (word_of_int (2 OR 4) :: 32 word)) 1"
    by (simp add: bit_simps)
  then show ?thesis by (auto simp del: bit_0 simp: bit_eq_iff intro: exI [of _ 1])
qed

lemma hidden_or_system_kept:
  assumes "\<not> sint (a :: 32 word) OR 2 OR 4 \<noteq> sint a"
  shows "a AND (word_of_int (2 OR 4) :: 32 word) \<noteq> 0"
proof -
  have "bit (sint a OR 2 OR 4) 1" by (simp add: bit_simps)
  with assms have "bit (sint a) 1" by simp
  then have "bit a 1" by (simp add: bit_sint_iff)
  then have "bit (a AND (word_of_int (2 OR 4) :: 32 word)) 1" by (simp add: bit_simps)
  then show ?thesis by (auto simp del: bit_0 simp: bit_eq_iff intro: exI [of _ 1])
qed

lemma ensure_ini_hidden_system_ok:
  assumes "dirs w p = None" and "files w p = Some f"
  shows "\<exists>w1 a1. ensure_ini_hidden_system w p = (Inr (), w1) \<and> dirs w1 = dirs w \<and>
           files w1 = (files w)(p \<mapsto> f\<lparr>fattrs := a1\<rparr>) \<and> hidden_or_system a1"
proof (cases "sint (fattrs f) OR FILE_ATTRIBUTE_HIDDEN OR FILE_ATTRIBUTE_SYSTEM \<noteq> sint (fattrs f)")
  case False
  with assms sint_valid [of "fattrs f"] have e: "ensure_ini_hidden_system w p = (Inr (), w)"
    by (simp add: ensure_ini_hidden_system_def get_file_attributes_def GetFileAttributesW_def Let_def)
  have "f\<lparr>fattrs := fattrs f\<rparr> = f" by (cases f) simp
  with assms have u: "files w = (files w)(p \<mapsto> f\<lparr>fattrs := fattrs f\<rparr>)"
    by (simp add: fun_upd_idem)
  have "hidden_or_system (fattrs f)"
    using False hidden_or_system_kept [of "fattrs f"]
    by (simp add: hidden_or_system_def FILE_ATTRIBUTE_HIDDEN_def FILE_ATTRIBUTE_SYSTEM_def)
  with e u show ?thesis by blast
next
  case True
  let ?a = "word_of_int (sint (fattrs f) OR FILE_ATTRIBUTE_HIDDEN OR FILE_ATTRIBUTE_SYSTEM) :: 32 word"
  from True assms sint_valid [of "fattrs f"]
  have "ensure_ini_hidden_system w p =
      (Inr (), w\<lparr>files := (files w)(p \<mapsto> f\<lparr>fattrs := ?a\<rparr>), log := log w @ [SetAttributes p ?a]\<rparr>)"
    by (simp add: ensure_ini_hidden_system_def get_file_attributes_def GetFileAttributesW_def
          set_file_attributes_def SetFileAttributesW_def Let_def)
  moreover have "hidden_or_system ?a"
    using hidden_or_system_set [of "fattrs f"]
    by (simp add: hidden_or_system_def FILE_ATTRIBUTE_HIDDEN_def FILE_ATTRIBUTE_SYSTEM_def)
  ultimately show ?thesis by auto
qed

lemma safe_read_config_cong:
  assumes "files w' p = files w p" and "(dirs w' p = None) = (dirs w p = None)"
  shows "safe_read_config mbcs w' p = safe_read_config mbcs w p"
proof -
  have "read_bytes w' p = read_bytes w p" using assms by (auto simp: read_bytes_def)
  moreover have "exists w' p = exists w p" using assms by (simp add: exists_def)
  ultimately show ?thesis by (simp only: safe_read_config_def)
qed

lemma safe_read_config_absent:
  "dirs w p = None \<Longrightarrow> files w p = None \<Longrightarrow> safe_read_config mbcs w p = new_parser"
  by (simp add: safe_read_config_def exists_def)

lemma safe_read_config_doc:
  assumes "dirs w p = None" and "files w p = Some f" and "content f = doc_bytes d"
    and "encodable_doc d" and "read_string new_parser (doc_text d) = (None, doc)"
  shows "safe_read_config mbcs w p = doc"
  using assms
  by (simp add: safe_read_config_def exists_def read_bytes_def attempt_def read_text_doc)

lemma remove_info_tips_section:
  "remove_info_tips lower \<lparr>defaults = [], sections = [(SECTION, d)]\<rparr> ks =
     Inr \<lparr>defaults = [], sections =
       [(SECTION, filter (\<lambda>kv. fst kv \<notin> set (filter (\<lambda>k. lower k = py ''infotip'') ks)) d)]\<rparr>"
proof (induction ks arbitrary: d)
  case Nil
  then show ?case by simp
next
  case (Cons k ks)
  show ?case
  proof (cases "lower k = py ''infotip''")
    case True
    have "remove_option \<lparr>defaults = [], sections = [(SECTION, d)]\<rparr> SECTION k =
        Inr \<lparr>defaults = [], sections = [(SECTION, dict_del k d)]\<rparr>"
      using section_name by (simp add: remove_option_def)
    with True show ?thesis
      by (simp add: Cons.IH dict_del_def)
  next
    case False
    then show ?thesis by (simp add: Cons.IH)
  qed
qed

lemma dict_update_empty: "dict_update d [] = d"
  by (simp add: dict_update_def)

lemma edit_parser_only_info_tip:
  assumes "only_info_tip lower p"
  shows "edit_parser lower p remark =
           (if remark \<noteq> [] then set_option empty_section_doc SECTION INFOTIP remark
            else Inr new_parser)"
proof -
  note s = section_name
  obtain kvs where
    p1: "(if SECTION \<notin> set (sections_of p) then add_section p SECTION else Inr p) =
           Inr \<lparr>defaults = [], sections = [(SECTION, kvs)]\<rparr>" and
    kvs: "list_all (\<lambda>kv. lower (fst kv) = py ''infotip'') kvs"
  proof (cases "sections p")
    case Nil
    with assms have "p = \<lparr>defaults = [], sections = []\<rparr>" by (cases p) (simp add: only_info_tip_def)
    then have "(if SECTION \<notin> set (sections_of p) then add_section p SECTION else Inr p) =
           Inr \<lparr>defaults = [], sections = [(SECTION, [])]\<rparr>"
      using s by (simp add: sections_of_def dict_keys_def add_section_def dict_has_def)
    then show ?thesis using that [of "[]"] by simp
  next
    case (Cons sd rest)
    with assms have "rest = []" by (cases rest) (auto simp: only_info_tip_def)
    with Cons assms have p: "p = \<lparr>defaults = [], sections = [(SECTION, snd sd)]\<rparr>"
      and k: "list_all (\<lambda>kv. lower (fst kv) = py ''infotip'') (snd sd)"
      by (cases p; cases sd; simp add: only_info_tip_def)+
    from p have "(if SECTION \<notin> set (sections_of p) then add_section p SECTION else Inr p) =
           Inr \<lparr>defaults = [], sections = [(SECTION, snd sd)]\<rparr>"
      by (simp add: sections_of_def dict_keys_def)
    then show ?thesis using that [of "snd sd"] k by simp
  qed
  have o: "options \<lparr>defaults = [], sections = [(SECTION, kvs)]\<rparr> SECTION = Inr (map fst kvs)"
    by (simp add: options_def dict_update_empty dict_keys_def)
  have f: "filter (\<lambda>kv. fst kv \<notin> set (filter (\<lambda>k. lower k = py ''infotip'') (map fst kvs))) kvs = []"
    using kvs by (auto simp: filter_empty_conv list_all_iff)
  have r: "remove_info_tips lower \<lparr>defaults = [], sections = [(SECTION, kvs)]\<rparr> (map fst kvs) =
      Inr empty_section_doc"
    by (simp only: remove_info_tips_section f empty_section_doc_def)
  have h: "\<not> has_option empty_section_doc SECTION INFOTIP"
    using s by (simp add: has_option_def empty_section_doc_def dict_has_def dict_keys_def)
  have i: "items empty_section_doc SECTION = Inr []"
    by (simp add: items_def empty_section_doc_def dict_update_def)
  have rs: "remove_section empty_section_doc SECTION = new_parser"
    by (simp add: remove_section_def empty_section_doc_def dict_del_def new_parser_def)
  show ?thesis
    unfolding edit_parser_def by (simp only: p1 o r h i rs sum.case if_False if_True simp_thms)
qed

lemma set_option_info_doc:
  "set_option empty_section_doc SECTION INFOTIP r =
     (case (if r \<noteq> [] then before_set r else Inr r) of
        Inl err \<Rightarrow> Inl err | Inr v \<Rightarrow> Inr (info_doc v))"
  using section_name
  by (simp add: set_option_def empty_section_doc_def info_doc_def split: sum.splits)

lemma edit_parser_remark:
  "only_info_tip lower p \<Longrightarrow> r \<noteq> [] \<Longrightarrow> before_set r = Inr r \<Longrightarrow> edit_parser lower p r = Inr (info_doc r)"
  by (simp add: edit_parser_only_info_tip set_option_info_doc)

lemma edit_parser_refused:
  "only_info_tip lower p \<Longrightarrow> r \<noteq> [] \<Longrightarrow> before_set r = Inl err \<Longrightarrow> edit_parser lower p r = Inl err"
  by (simp add: edit_parser_only_info_tip set_option_info_doc)

lemma write_parser_nonempty: "sections p \<noteq> [] \<Longrightarrow> write_parser p \<noteq> []"
  by (cases "sections p") (auto simp: write_parser_def write_section_def)

lemma write_config_doc:
  assumes "dirs w (desktop_ini folder) = None" and "dirs w folder = Some a"
    and "encodable_doc d" and "sections d \<noteq> []" and "\<not> create_refused w (desktop_ini folder)"
  shows "write_config w (desktop_ini folder) d =
     (Inr (), w\<lparr>files := (files w)(desktop_ini folder \<mapsto>
                 \<lparr>content = doc_bytes d,
                  fattrs = (case files w (desktop_ini folder) of Some f \<Rightarrow> fattrs f
                            | None \<Rightarrow> FILE_ATTRIBUTE_ARCHIVE)\<rparr>),
               log := log w @ [WriteFile (desktop_ini folder) (doc_bytes d)]\<rparr>)"
proof -
  from assms(3) have "write_all True (write_parser d) = (None, doc_bytes d)"
    using write_all_encodable [of "write_parser d" True] write_parser_nonempty [OF assms(4)]
    by (simp add: doc_bytes_def encodable_doc_def)
  with assms show ?thesis by (simp add: write_config_def Let_def butlast_desktop_ini)
qed

text \<open>The call that writes a document.\<close>

lemma write_info_tip_writes:
  assumes "dirs w folder = Some a" and "dirs w (desktop_ini folder) = None"
    and "edit_parser lower (safe_read_config mbcs w (desktop_ini folder)) r = Inr d"
    and "sections d \<noteq> []" and "encodable_doc d" and "\<not> create_refused w (desktop_ini folder)"
  shows "\<exists>w' f a'. write_info_tip mbcs lower w folder r = (Inr (), w') \<and>
           dirs w' = (dirs w)(folder \<mapsto> a') \<and>
           files w' = (files w)(desktop_ini folder \<mapsto> f) \<and> content f = doc_bytes d \<and>
           hidden_or_system (fattrs f)"
proof -
  let ?ini = "desktop_ini folder"
  from ensure_folder_system_ok [OF assms(1)]
  obtain w1 a1 where w1: "ensure_folder_system w folder = (Inr (), w1)"
    and f1: "files w1 = files w" and d1: "dirs w1 = (dirs w)(folder \<mapsto> a1)"
    by auto
  from d1 assms(2) have d1': "dirs w1 folder = Some a1" "dirs w1 ?ini = None"
    by (simp_all add: desktop_ini_neq)
  have "safe_read_config mbcs w1 ?ini = safe_read_config mbcs w ?ini"
    by (rule safe_read_config_cong) (simp_all add: f1 d1' assms)
  with assms(3) have e: "edit_parser lower (safe_read_config mbcs w1 ?ini) r = Inr d" by simp
  have "\<not> create_refused w1 ?ini" using assms(6) f1 by (simp add: create_refused_def)
  note wc = write_config_doc [OF d1'(2) d1'(1) assms(5) assms(4) this]
  let ?f = "\<lparr>content = doc_bytes d,
            fattrs = (case files w1 ?ini of Some f \<Rightarrow> fattrs f | None \<Rightarrow> FILE_ATTRIBUTE_ARCHIVE)\<rparr>"
  let ?w2 = "w1\<lparr>files := (files w1)(?ini \<mapsto> ?f), log := log w1 @ [WriteFile ?ini (doc_bytes d)]\<rparr>"
  have "dirs ?w2 ?ini = None" "files ?w2 ?ini = Some ?f"
    by (simp_all add: d1')
  from ensure_ini_hidden_system_ok [OF this]
  obtain w3 a3 where w3: "ensure_ini_hidden_system ?w2 ?ini = (Inr (), w3)"
    "dirs w3 = dirs ?w2" "files w3 = (files ?w2)(?ini \<mapsto> ?f\<lparr>fattrs := a3\<rparr>)"
    "hidden_or_system a3"
    by auto
  have s: "sections_of d \<noteq> []" using assms(4) by (simp add: sections_of_def dict_keys_def)
  have "write_info_tip mbcs lower w folder r = (Inr (), w3)"
    using assms(1) w1 e wc w3(1) s by (simp add: write_info_tip_def exists_def Let_def)
  moreover have "dirs w3 = (dirs w)(folder \<mapsto> a1)" using w3(2) d1 by simp
  moreover have "files w3 = (files w)(?ini \<mapsto> ?f\<lparr>fattrs := a3\<rparr>)" using w3(3) f1 by simp
  ultimately show ?thesis using w3(4) by auto
qed

text \<open>The call whose edit of the document raises.\<close>

lemma write_info_tip_raises:
  assumes "dirs w folder = Some a" and "dirs w (desktop_ini folder) = None"
    and "edit_parser lower (safe_read_config mbcs w (desktop_ini folder)) r = Inl err"
  shows "\<exists>w' a'. write_info_tip mbcs lower w folder r = (Inl err, w') \<and>
           dirs w' = (dirs w)(folder \<mapsto> a') \<and> files w' = files w"
proof -
  let ?ini = "desktop_ini folder"
  from ensure_folder_system_ok [OF assms(1)]
  obtain w1 a1 where w1: "ensure_folder_system w folder = (Inr (), w1)"
    and f1: "files w1 = files w" and d1: "dirs w1 = (dirs w)(folder \<mapsto> a1)"
    by auto
  from d1 assms(2) have d1': "dirs w1 folder = Some a1" "dirs w1 ?ini = None"
    by (simp_all add: desktop_ini_neq)
  have "safe_read_config mbcs w1 ?ini = safe_read_config mbcs w ?ini"
    by (rule safe_read_config_cong) (simp_all add: f1 d1' assms)
  with assms(3) have "edit_parser lower (safe_read_config mbcs w1 ?ini) r = Inl err" by simp
  with assms(1) w1 have "write_info_tip mbcs lower w folder r = (Inl err, w1)"
    by (simp add: write_info_tip_def exists_def Let_def)
  with f1 d1 show ?thesis by auto
qed

text \<open>The call that leaves no document.\<close>

lemma write_info_tip_clears:
  assumes "dirs w folder = Some a" and "dirs w (desktop_ini folder) = None"
    and "edit_parser lower (safe_read_config mbcs w (desktop_ini folder)) r = Inr new_parser"
  shows "\<exists>w' a' l. write_info_tip mbcs lower w folder r = (Inr (), w') \<and>
           dirs w' = (dirs w)(folder \<mapsto> a') \<and>
           files w' = (files w)(desktop_ini folder := None) \<and>
           log w' = log w @ l @ (if files w (desktop_ini folder) = None then []
                                else [Unlink (desktop_ini folder)]) \<and>
           (l = [] \<or> l = [SetAttributes folder a'])"
proof -
  let ?ini = "desktop_ini folder"
  from ensure_folder_system_ok [OF assms(1)]
  obtain w1 a1 l where w1: "ensure_folder_system w folder = (Inr (), w1)"
    and f1: "files w1 = files w" and d1: "dirs w1 = (dirs w)(folder \<mapsto> a1)"
    and l: "log w1 = log w @ l" "l = [] \<or> l = [SetAttributes folder a1]"
    by auto
  from d1 assms(2) have d1': "dirs w1 folder = Some a1" "dirs w1 ?ini = None"
    by (simp_all add: desktop_ini_neq)
  have "safe_read_config mbcs w1 ?ini = safe_read_config mbcs w ?ini"
    by (rule safe_read_config_cong) (simp_all add: f1 d1' assms)
  with assms(3) have e: "edit_parser lower (safe_read_config mbcs w1 ?ini) r = Inr new_parser" by simp
  have s: "sections_of new_parser = []" by (simp add: sections_of_def new_parser_def dict_keys_def)
  show ?thesis
  proof (cases "files w ?ini")
    case None
    with w1 d1' f1 e s assms(1) have "write_info_tip mbcs lower w folder r = (Inr (), w1)"
      by (simp add: write_info_tip_def exists_def Let_def)
    moreover from None f1 have "files w1 = (files w)(?ini := None)" by (simp add: fun_upd_idem)
    ultimately show ?thesis using d1 l None by auto
  next
    case (Some f)
    let ?w2 = "w1\<lparr>files := (files w1)(?ini := None), log := log w1 @ [Unlink ?ini]\<rparr>"
    from Some d1' f1 have "unlink w1 ?ini = (Inr (), ?w2)"
      by (simp add: unlink_def)
    with Some w1 d1' f1 e s assms(1) have "write_info_tip mbcs lower w folder r = (Inr (), ?w2)"
      by (simp add: write_info_tip_def exists_def Let_def)
    moreover have "dirs ?w2 = (dirs w)(folder \<mapsto> a1)" using d1 by simp
    moreover have "files ?w2 = (files w)(?ini := None)" using f1 by simp
    moreover have "log ?w2 = log w @ l @ [Unlink ?ini]" using l by simp
    ultimately show ?thesis using Some l(2) by auto
  qed
qed

subsection \<open>Reading the remark of a document\<close>

lemma info_tip_of_info_doc:
  assumes "lower INFOTIP = py ''infotip''"
  shows "info_tip_of lower (info_doc v) = before_get (map_of [(INFOTIP, v)]) v"
proof -
  have "unify_values (info_doc v) [(INFOTIP, v)] = map_of [(INFOTIP, v)]"
    by (rule ext) (simp add: unify_values_def info_doc_def)
  then show ?thesis
    using section_name assms
    by (simp add: info_tip_of_def has_section_def info_doc_def dict_has_def dict_keys_def options_def
      dict_update_def get_def)
qed

lemma only_info_tip_info_doc:
  "lower INFOTIP = py ''infotip'' \<Longrightarrow> only_info_tip lower (info_doc v)"
  by (simp add: only_info_tip_def info_doc_def)

lemma only_info_tip_new: "only_info_tip lower new_parser"
  by (simp add: only_info_tip_def new_parser_def)

lemma info_tip_of_new: "info_tip_of lower new_parser = Inr []"
  by (simp add: info_tip_of_def has_section_def new_parser_def dict_has_def dict_keys_def)

lemma write_read_empty:
  assumes "dirs w folder \<noteq> None" and "dirs w (desktop_ini folder) = None"
    and "only_info_tip lower (safe_read_config mbcs w (desktop_ini folder))"
  shows "\<exists>w' l. write_info_tip mbcs lower w folder [] = (Inr (), w') \<and>
           dirs w' folder \<noteq> None \<and> dirs w' (desktop_ini folder) = None \<and>
           files w' (desktop_ini folder) = None \<and>
           safe_read_config mbcs w' (desktop_ini folder) = new_parser \<and>
           log w' = log w @ l @ (if files w (desktop_ini folder) = None then []
                                else [Unlink (desktop_ini folder)]) \<and>
           (l = [] \<or> (\<exists>x. l = [SetAttributes folder x]))"
proof -
  from assms(1) obtain a where a: "dirs w folder = Some a" by auto
  have e: "edit_parser lower (safe_read_config mbcs w (desktop_ini folder)) [] = Inr new_parser"
    using assms(3) by (simp add: edit_parser_only_info_tip)
  from write_info_tip_clears [OF a assms(2) e]
  obtain w' a' l where w': "write_info_tip mbcs lower w folder [] = (Inr (), w')"
    "dirs w' = (dirs w)(folder \<mapsto> a')" "files w' = (files w)(desktop_ini folder := None)"
    "log w' = log w @ l @ (if files w (desktop_ini folder) = None then []
                                else [Unlink (desktop_ini folder)])"
    "l = [] \<or> l = [SetAttributes folder a']" by auto
  have d: "dirs w' (desktop_ini folder) = None" using w'(2) assms(2) by (simp add: desktop_ini_neq)
  have f: "files w' (desktop_ini folder) = None" using w'(3) by simp
  from w' d f safe_read_config_absent [OF d f] show ?thesis by auto
qed

subsection \<open>Clearing the only remark\<close>

text \<open>
  C2. Take an existing folder whose sidecar file decodes to a document with nothing but
  \<^verbatim>\<open>InfoTip\<close> keys (in any casing) in \<^verbatim>\<open>.ShellClassInfo\<close>. Then \<^verbatim>\<open>write_info_tip\<close> with the
  empty remark succeeds, the sidecar file is gone afterwards, and the call changed the file
  system by deleting that file, after at most one change of the folder's attributes: it
  wrote no file.
\<close>

theorem clear_deletes_sidecar:
  assumes "dirs w folder \<noteq> None" and "dirs w (desktop_ini folder) = None"
    and "files w (desktop_ini folder) \<noteq> None"
    and "only_info_tip lower (safe_read_config mbcs w (desktop_ini folder))"
  shows "fst (write_info_tip mbcs lower w folder []) = Inr () \<and>
         \<not> exists (snd (write_info_tip mbcs lower w folder [])) (desktop_ini folder) \<and>
         (\<exists>l. log (snd (write_info_tip mbcs lower w folder [])) = log w @ l @ [Unlink (desktop_ini folder)] \<and>
              (l = [] \<or> (\<exists>x. l = [SetAttributes folder x])))"
  using write_read_empty [OF assms(1,2,4)] assms(3)
  by (auto simp: exists_def)

lemma noted_world_facts:
  "dirs noted_world photos \<noteq> None" "dirs noted_world (desktop_ini photos) = None"
  "files noted_world (desktop_ini photos) \<noteq> None"
  "safe_read_config mbcs noted_world (desktop_ini photos) = info_doc (py ''summer'')"
proof -
  show d: "dirs noted_world (desktop_ini photos) = None"
    using desktop_ini_neq [of photos] by (simp add: noted_world_def)
  show "dirs noted_world photos \<noteq> None" by (simp add: noted_world_def)
  show "files noted_world (desktop_ini photos) \<noteq> None" by (simp add: noted_world_def)
  have s: "strip (py ''summer'') = py ''summer''"
    by (simp add: strip_def rstrip_def lstrip_def isspace_def)
  have f: "files noted_world (desktop_ini photos) =
      Some \<lparr>content = doc_bytes (info_doc (py ''summer'')), fattrs = 0x26\<rparr>"
    by (simp add: noted_world_def)
  have e: "encodable_doc (info_doc (py ''summer''))"
    by (rule encodable_info_doc) (simp add: encodable_def)
  have "read_string new_parser (doc_text (info_doc (py ''summer''))) =
      (None, info_doc (strip (py ''summer'')))"
    by (subst doc_text_single_line, simp, simp, rule read_string_info_doc) simp
  then have r: "read_string new_parser (doc_text (info_doc (py ''summer''))) =
      (None, info_doc (py ''summer''))"
    by (simp only: s)
  show "safe_read_config mbcs noted_world (desktop_ini photos) = info_doc (py ''summer'')"
    by (rule safe_read_config_doc [OF d f _ e r]) simp
qed

theorem clear_deletes_sidecar_witness:
  "dirs noted_world photos \<noteq> None \<and> dirs noted_world (desktop_ini photos) = None \<and>
   files noted_world (desktop_ini photos) \<noteq> None \<and>
   only_info_tip lower_ascii (safe_read_config cp1252 noted_world (desktop_ini photos)) \<and>
   fst (write_info_tip cp1252 lower_ascii noted_world photos []) = Inr () \<and>
   \<not> exists (snd (write_info_tip cp1252 lower_ascii noted_world photos [])) (desktop_ini photos)"
proof -
  have o: "only_info_tip lower_ascii (safe_read_config cp1252 noted_world (desktop_ini photos))"
    by (simp only: noted_world_facts(4) only_info_tip_info_doc [of lower_ascii, OF lower_INFOTIP])
  from clear_deletes_sidecar [OF noted_world_facts(1,2,3) o] noted_world_facts(1,2,3) o
  show ?thesis by blast
qed

subsection \<open>A remark with a carriage return\<close>

lemma blank_after_header:
  "read_line \<lparr>cfg = c, elements_added = ea, sectname = Some sn, optname = None,
             indent_level = 0, e = b\<rparr> [10] =
   Inr \<lparr>cfg = c, elements_added = ea, sectname = Some sn, optname = None, indent_level = 0, e = b\<rparr>"
  by (simp add: read_line_def is_comment_def strip_def rstrip_def lstrip_def isspace_def)

lemma option_state_junk:
  "read_line \<lparr>cfg = \<lparr>defaults = [], sections = [(SECTION, [(INFOTIP, Lines ls)])]\<rparr>,
        elements_added = [Inr (SECTION, INFOTIP), Inl SECTION],
        sectname = Some SECTION, optname = Some INFOTIP, indent_level = 0, e = False\<rparr>
      (py ''b'' @ [10]) =
   Inr \<lparr>cfg = \<lparr>defaults = [], sections = [(SECTION, [(INFOTIP, Lines ls)])]\<rparr>,
        elements_added = [Inr (SECTION, INFOTIP), Inl SECTION],
        sectname = Some SECTION, optname = Some INFOTIP, indent_level = 0, e = True\<rparr>"
  by (simp add: read_line_def is_comment_def strip_def rstrip_def lstrip_def isspace_def
        INFOTIP_def sect_match_def opt_match_def Let_def)

lemma strip_a: "strip (py ''a'') = py ''a''"
  by (simp add: strip_def rstrip_def lstrip_def isspace_def)

lemma doc_text_cr_remark:
  "doc_text (info_doc cr_remark) =
     (91 # SECTION @ [93]) @ 10 # (INFOTIP @ DELIMITER @ py ''a'') @ 10 # py ''b'' @ 10 # [10]"
proof -
  have "10 \<notin> set cr_remark" by (simp add: cr_remark_def)
  then show ?thesis
    by (simp add: doc_text_def write_parser_info_doc)
       (simp add: cr_remark_def write_newlines_def SECTION_def INFOTIP_def DELIMITER_def)
qed

lemma read_string_cr_remark:
  "read_string new_parser (doc_text (info_doc cr_remark)) = (Some ParsingError, info_doc (py ''a''))"
proof -
  have "readlines ((91 # SECTION @ [93]) @ 10 # (INFOTIP @ DELIMITER @ py ''a'') @ 10 # py ''b'' @ 10 # [10]) =
      ((91 # SECTION @ [93]) @ [10]) # ((INFOTIP @ DELIMITER @ py ''a'') @ [10]) # (py ''b'' @ [10]) # [[10]]"
    by (subst readlines_line, simp add: SECTION_def, subst readlines_line,
        simp add: INFOTIP_def DELIMITER_def, subst readlines_line, simp) simp
  then have l: "readlines (doc_text (info_doc cr_remark)) =
      [91 # SECTION @ [93, 10], INFOTIP @ DELIMITER @ py ''a'' @ [10], py ''b'' @ [10], [10]]"
    by (simp add: doc_text_cr_remark)
  have rl: "read_lines \<lparr>cfg = \<lparr>defaults = [], sections = []\<rparr>, elements_added = [], sectname = None,
              optname = None, indent_level = 0, e = False\<rparr>
            (readlines (doc_text (info_doc cr_remark))) =
        (None, \<lparr>cfg = \<lparr>defaults = [], sections = [(SECTION, [(INFOTIP, Lines ([py ''a''] @ [[]]))])]\<rparr>,
          elements_added = [Inr (SECTION, INFOTIP), Inl SECTION],
          sectname = Some SECTION, optname = Some INFOTIP, indent_level = 0, e = True\<rparr>)"
    by (simp only: l read_lines.simps header_line option_line strip_a option_state_junk
          blank_line sum.case)
  show ?thesis
    unfolding read_string_def new_parser_def unjoined_def
    by (simp add: rl Let_def) (simp add: join_multiline_values_def rstrip_def isspace_def info_doc_def)
qed

subsection \<open>A text that does not start with a section header\<close>

lemma join_unjoined: "join_multiline_values (unjoined p) = p"
  by (cases p) (simp add: join_multiline_values_def unjoined_def o_def)

lemma readlines_Cons: "c \<noteq> 10 \<Longrightarrow> \<exists>l ls. readlines (c # t) = (c # l) # ls"
  by (cases "readlines t") auto

lemma strip_Cons: "\<not> isspace c \<Longrightarrow> \<exists>t. strip (c # l) = c # t"
proof -
  assume c: "\<not> isspace c"
  then have "rstrip [c] = [c]" by (simp add: rstrip_def)
  then have "\<exists>t. rstrip ([c] @ l) = c # t" by (simp only: rstrip_append) auto
  then obtain t where "rstrip (c # l) = c # t" by auto
  with c show ?thesis by (simp add: strip_def lstrip_def)
qed

lemma read_string_missing_header:
  assumes "\<not> isspace c" and "c \<noteq> 13" and "c \<noteq> 35" and "c \<noteq> 59" and "c \<noteq> 91"
  shows "read_string p (universal_newlines (c # t)) = (Some MissingSectionHeaderError, p)"
proof -
  from assms(1) have c10: "c \<noteq> 10" by (auto simp: isspace_def)
  have u: "universal_newlines (c # t) = c # universal_newlines t"
    by (rule universal_newlines_Cons [OF assms(2)])
  from readlines_Cons [OF c10] obtain l ls where
    l: "readlines (c # universal_newlines t) = (c # l) # ls" by blast
  from strip_Cons [OF assms(1)] obtain v where v: "strip (c # l) = c # v" by blast
  have "read_line \<lparr>cfg = unjoined p, elements_added = [], sectname = None, optname = None,
                indent_level = 0, e = False\<rparr> (c # l) = Inl MissingSectionHeaderError"
    using assms by (simp add: read_line_def is_comment_def v sect_match_def Let_def)
  then have rl: "read_lines \<lparr>cfg = unjoined p, elements_added = [], sectname = None, optname = None,
                indent_level = 0, e = False\<rparr> (readlines (universal_newlines (c # t))) =
      (Some MissingSectionHeaderError, \<lparr>cfg = unjoined p, elements_added = [], sectname = None,
         optname = None, indent_level = 0, e = False\<rparr>)"
    by (simp only: u l read_lines.simps sum.case)
  show ?thesis
    unfolding read_string_def by (simp add: rl Let_def join_unjoined)
qed

lemma cp1252_bom: "cp1252 (BOM_LE @ bs) = Some (255 # 254 # map cp1252_char bs)"
  by (simp add: cp1252_def BOM_LE_def cp1252_char_def)

subsection \<open>The three attempts on the file of the remark with a carriage return\<close>

lemma attempt_utf16_cr:
  "attempt cp1252 (Some (doc_bytes (info_doc cr_remark))) new_parser UTF16 =
     (Some ParsingError, info_doc (py ''a''))"
proof -
  have "encodable_doc (info_doc cr_remark)"
    by (rule encodable_info_doc) (simp add: cr_remark_def encodable_def)
  then show ?thesis by (simp add: attempt_def read_text_doc read_string_cr_remark)
qed

lemma attempt_utf8_sig_doc:
  "attempt mbcs (Some (doc_bytes d)) p UTF8_SIG = (Some UnicodeDecodeError, p)"
  by (simp add: attempt_def read_text_def doc_bytes_def utf8_sig_decode_bom_le)

lemma attempt_mbcs_doc:
  "attempt cp1252 (Some (doc_bytes d)) p MBCS = (Some MissingSectionHeaderError, p)"
proof -
  have "read_string p (universal_newlines (255 # 254 # t)) = (Some MissingSectionHeaderError, p)" for t
    by (rule read_string_missing_header) (simp_all add: isspace_def)
  then show ?thesis by (simp add: attempt_def read_text_def doc_bytes_def cp1252_bom)
qed

lemma safe_read_config_cr:
  assumes "dirs w p = None" and "files w p = Some f" and "content f = doc_bytes (info_doc cr_remark)"
  shows "safe_read_config cp1252 w p = info_doc (py ''a'')"
  using assms
  by (simp add: safe_read_config_def exists_def read_bytes_def attempt_utf16_cr attempt_utf8_sig_doc
        attempt_mbcs_doc)

lemma info_tip_of_a: "info_tip_of lower_ascii (info_doc (py ''a'')) = Inr (py ''a'')"
  by (simp only: info_tip_of_info_doc [of lower_ascii, OF lower_INFOTIP]) (simp add: before_get_plain)

lemma cr_world_facts:
  "dirs cr_world (desktop_ini photos) = None"
  "files cr_world (desktop_ini photos) =
     Some \<lparr>content = doc_bytes (info_doc cr_remark), fattrs = 0x26\<rparr>"
  using desktop_ini_neq [of photos] by (simp_all add: cr_world_def)

text \<open>
  C3 fails on the code. The sidecar file of \<open>cr_world\<close> holds, in UTF-16 with a byte order
  mark, the lines \<^verbatim>\<open>[.ShellClassInfo]\<close>, \<^verbatim>\<open>InfoTip = a\<close> and \<^verbatim>\<open>b\<close>. Every attempt of
  \<^verbatim>\<open>safe_read_config\<close> raises: the text decoded as UTF-16 has a line without delimiter, the
  bytes are not UTF-8, and the text decoded in the code page does not start with a section
  header. The parser object keeps what the first attempt stored in it, so \<^verbatim>\<open>read_info_tip\<close>
  returns \<^verbatim>\<open>a\<close> and not the empty string.
\<close>

theorem read_info_tip_after_failed_attempts:
  "fst (attempt cp1252 (read_bytes cr_world (desktop_ini photos)) new_parser UTF16) =
     Some ParsingError \<and>
   fst (attempt cp1252 (read_bytes cr_world (desktop_ini photos)) (info_doc (py ''a'')) UTF8_SIG) =
     Some UnicodeDecodeError \<and>
   fst (attempt cp1252 (read_bytes cr_world (desktop_ini photos)) (info_doc (py ''a'')) MBCS) =
     Some MissingSectionHeaderError \<and>
   read_info_tip cp1252 lower_ascii cr_world photos = Inr (py ''a'')"
proof -
  have r: "read_bytes cr_world (desktop_ini photos) = Some (doc_bytes (info_doc cr_remark))"
    by (simp add: read_bytes_def cr_world_facts)
  have "safe_read_config cp1252 cr_world (desktop_ini photos) = info_doc (py ''a'')"
    by (rule safe_read_config_cr [OF cr_world_facts]) simp
  then show ?thesis
    by (simp only: r attempt_utf16_cr attempt_utf8_sig_doc attempt_mbcs_doc read_info_tip_def
          info_tip_of_a fst_conv simp_thms)
qed

text \<open>\<^verbatim>\<open>read_info_tip\<close> also raises: on a sidecar file whose remark ends with a percent sign
  the interpolation of \<^verbatim>\<open>parser.get\<close> raises \<^verbatim>\<open>InterpolationSyntaxError\<close>.\<close>

lemma read_info_tip_raises:
  "read_info_tip cp1252 lower_ascii percent_world photos = Inl InterpolationSyntaxError"
proof -
  have d: "dirs percent_world (desktop_ini photos) = None"
    using desktop_ini_neq [of photos] by (simp add: percent_world_def)
  have f: "files percent_world (desktop_ini photos) =
      Some \<lparr>content = doc_bytes (info_doc (py ''5%'')), fattrs = 0x26\<rparr>"
    by (simp add: percent_world_def)
  have e: "encodable_doc (info_doc (py ''5%''))"
    by (rule encodable_info_doc) (simp add: encodable_def)
  have s: "strip (py ''5%'') = py ''5%''"
    by (simp add: strip_def rstrip_def lstrip_def isspace_def)
  have "read_string new_parser (doc_text (info_doc (py ''5%''))) = (None, info_doc (strip (py ''5%'')))"
    by (subst doc_text_single_line, simp, simp, rule read_string_info_doc) simp
  then have r: "read_string new_parser (doc_text (info_doc (py ''5%''))) = (None, info_doc (py ''5%''))"
    by (simp only: s)
  have "safe_read_config cp1252 percent_world (desktop_ini photos) = info_doc (py ''5%'')"
    by (rule safe_read_config_doc [OF d f _ e r]) simp
  moreover have "before_get m (py ''5%'') = Inl InterpolationSyntaxError" for m
    by (simp add: before_get_def interpolate_some.simps [of m _ "Suc 0"] MAX_INTERPOLATION_DEPTH_def)
  ultimately show ?thesis
    by (simp only: read_info_tip_def info_tip_of_info_doc [of lower_ascii, OF lower_INFOTIP])
qed

subsection \<open>Listing the subfolders\<close>

lemma scan_entries_sound:
  "scan_entries lower svc parent es acc = Inr ps \<Longrightarrow> p \<in> set ps \<Longrightarrow>
     p \<in> set acc \<or> (butlast p = parent \<and> lower (last p) \<notin> skip_names svc)"
proof (induction es arbitrary: acc)
  case Nil
  then show ?case by simp
next
  case (Cons entry es)
  show ?case
  proof (cases "is_dir entry")
    case (IsDirRaises err)
    with Cons show ?thesis by (auto split: if_splits)
  next
    case (IsDir b)
    show ?thesis
    proof (cases "b \<and> lower (entry_name entry) \<notin> skip_names svc")
      case False
      with Cons IsDir show ?thesis by (auto split: if_splits)
    next
      case True
      with Cons.prems IsDir
      have "scan_entries lower svc parent es (acc @ [parent @ [entry_name entry]]) = Inr ps" by simp
      from Cons.IH [OF this Cons.prems(2)] True show ?thesis by auto
    qed
  qed
qed

text \<open>
  C6. Whatever the parent, the directory listing and the configured names: every path that
  \<^verbatim>\<open>list_subfolders\<close> returns is a child of the parent whose name, in lower case, is not the
  lower case of a configured name. So a name is excluded in every casing it has on disk and
  in every casing it was configured with.
\<close>

theorem list_subfolders_skips:
  assumes "list_subfolders lower (init_service lower names) w scandir parent = Inr ps" and "p \<in> set ps"
  shows "butlast p = parent \<and> lower (last p) \<notin> lower ` names"
proof -
  from assms(2) have "ps \<noteq> []" by auto
  with assms(1) obtain es sub where
    sc: "scan_entries lower (init_service lower names) parent es [] = Inr sub" and
    ps: "ps = sorted_paths lower sub \<or> ps = sub"
    by (auto simp: list_subfolders_def split: if_splits scandir_result.splits sum.splits option.splits)
  from ps assms(2) have "p \<in> set sub" by (auto simp: sorted_paths_def)
  from scan_entries_sound [OF sc this] show ?thesis by (simp add: init_service_def)
qed

lemma list_subfolders_scan_ok:
  "list_subfolders lower_ascii (init_service lower_ascii DEFAULT_SKIP_NAMES) fresh_world scan_ok photos =
     Inr [photos @ [py ''docs'']]"
  by (simp add: list_subfolders_def exists_def fresh_world_def scan_ok_def init_service_def
        DEFAULT_SKIP_NAMES_def lower_ascii_def sorted_paths_def)

theorem list_subfolders_skips_witness:
  "list_subfolders lower_ascii (init_service lower_ascii DEFAULT_SKIP_NAMES) fresh_world scan_ok photos =
     Inr [photos @ [py ''docs'']] \<and>
   lower_ascii (py ''$Recycle.Bin'') \<in> lower_ascii ` DEFAULT_SKIP_NAMES \<and>
   lower_ascii (last (photos @ [py ''docs''])) \<notin> lower_ascii ` DEFAULT_SKIP_NAMES"
  using list_subfolders_skips [of lower_ascii DEFAULT_SKIP_NAMES fresh_world scan_ok photos
      "[photos @ [py ''docs'']]" "photos @ [py ''docs'']"]
  by (simp add: list_subfolders_scan_ok) (simp add: DEFAULT_SKIP_NAMES_def lower_ascii_def)

text \<open>The two halves of C8 that hold: a parent that does not exist gives the empty list, and
  a listing that ends normally is returned in the order of the paths.\<close>

lemma list_subfolders_missing_parent:
  "\<not> exists w parent \<Longrightarrow> list_subfolders lower svc w scandir parent = Inr []"
  by (simp add: list_subfolders_def)

lemma list_subfolders_sorted:
  "scandir parent = Entries es None \<Longrightarrow> list_subfolders lower svc w scandir parent = Inr ps \<Longrightarrow>
     sorted (map (map lower) ps)"
  by (auto simp: list_subfolders_def sorted_paths_def split: if_splits sum.splits)

text \<open>
  C8 fails on the code when the iterator of \<^verbatim>\<open>os.scandir\<close> raises \<^verbatim>\<open>PermissionError\<close> after
  it has yielded entries: the handler returns the list as collected, here \<^verbatim>\<open>b\<close> before
  \<^verbatim>\<open>a\<close>, without sorting it.
\<close>

theorem list_subfolders_unsorted:
  "list_subfolders lower_ascii (init_service lower_ascii DEFAULT_SKIP_NAMES) fresh_world scan_denied photos =
     Inr [photos @ [py ''b''], photos @ [py ''a'']] \<and>
   \<not> sorted (map (map lower_ascii) [photos @ [py ''b''], photos @ [py ''a'']])"
  by (simp add: list_subfolders_def exists_def fresh_world_def scan_denied_def init_service_def
       DEFAULT_SKIP_NAMES_def lower_ascii_def photos_def)

subsection \<open>Forwarding a path\<close>

text \<open>
  C9, as amended. For every payload without a lone surrogate \<^verbatim>\<open>send_payload\<close> returns a
  boolean and raises nothing: True when the connection is made and the bytes are sent, False
  when either fails.
\<close>

theorem send_payload_encodable:
  assumes "list_all encodable payload"
  shows "send_payload ep payload = Inr (connects ep \<and> sends ep (concat (map utf8_bytes payload)))"
  using assms by (simp add: send_payload_def utf8_encode_def)

theorem send_payload_encodable_witness:
  "list_all encodable (py ''D:/photos'') \<and>
   send_payload \<lparr>connects = True, sends = \<lambda>bs. True\<rparr> (py ''D:/photos'') = Inr True \<and>
   send_payload \<lparr>connects = False, sends = \<lambda>bs. True\<rparr> (py ''D:/photos'') = Inr False \<and>
   send_payload \<lparr>connects = True, sends = \<lambda>bs. False\<rparr> (py ''D:/photos'') = Inr False"
  using send_payload_encodable [of "py ''D:/photos''" "\<lparr>connects = True, sends = \<lambda>bs. True\<rparr>"]
    send_payload_encodable [of "py ''D:/photos''" "\<lparr>connects = False, sends = \<lambda>bs. True\<rparr>"]
    send_payload_encodable [of "py ''D:/photos''" "\<lparr>connects = True, sends = \<lambda>bs. False\<rparr>"]
  by (simp add: encodable_def)

text \<open>The claim as stated fails for a payload with a lone surrogate when the connection is
  made: encoding it raises \<^verbatim>\<open>UnicodeEncodeError\<close>, which is not an \<^verbatim>\<open>OSError\<close>.\<close>

theorem send_payload_counterexample:
  "send_payload \<lparr>connects = True, sends = \<lambda>bs. True\<rparr> [0xD800] = Inl UnicodeEncodeError"
  by (simp add: send_payload_def utf8_encode_def encodable_def)

subsection \<open>Saving a batch\<close>

lemma length_spec_attempts: "length (spec_attempts mbcs lower w rs) = length rs"
  by (induction rs arbitrary: w) (auto simp: Let_def)

lemma spec_attempts_nth:
  "i < length rs \<Longrightarrow>
     spec_attempts mbcs lower w rs ! i =
       write_info_tip mbcs lower ((w # map snd (spec_attempts mbcs lower w rs)) ! i)
         (path (rs ! i)) (current_remark (rs ! i))"
proof (induction rs arbitrary: w i)
  case Nil
  then show ?case by simp
next
  case (Cons row rs)
  then show ?case by (cases i) (simp_all add: Let_def)
qed

lemma save_loop_attempts:
  "save_loop mbcs lower w rs = (w', rows', s, f) \<Longrightarrow>
     w' = last (w # map snd (spec_attempts mbcs lower w rs)) \<and>
     rows' = map2 report_row rs (spec_attempts mbcs lower w rs) \<and>
     s = map (\<lambda>ra. name (fst ra))
           (filter (\<lambda>ra. \<not> isl (fst (snd ra))) (zip rs (spec_attempts mbcs lower w rs))) \<and>
     f = map (\<lambda>ra. (name (fst ra), projl (fst (snd ra))))
           (filter (\<lambda>ra. isl (fst (snd ra))) (zip rs (spec_attempts mbcs lower w rs)))"
proof (induction rs arbitrary: w w' rows' s f)
  case Nil
  then show ?case by simp
next
  case (Cons row rs)
  obtain r w1 where a: "write_info_tip mbcs lower w (path row) (current_remark row) = (r, w1)"
    by (cases "write_info_tip mbcs lower w (path row) (current_remark row)")
  obtain w2 rows2 s2 f2 where l: "save_loop mbcs lower w1 rs = (w2, rows2, s2, f2)"
    by (cases "save_loop mbcs lower w1 rs") auto
  note IH = Cons.IH [OF l]
  show ?case
  proof (cases r)
    case (Inl err)
    with Cons.prems a l IH show ?thesis by (auto simp: Let_def report_row_def)
  next
    case (Inr u)
    with Cons.prems a l IH show ?thesis by (auto simp: Let_def report_row_def)
  qed
qed

text \<open>
  C4. The batch save is the one the specification words. Every dirty entry is attempted, in
  order: the attempt on an entry is the call of \<^verbatim>\<open>write_info_tip\<close> on its path and its
  current remark, made on the file system as the attempt before it left it, whatever the
  outcomes before it, and the file system after the save is the one the last attempt left.
  The rows after the save are the dirty entries with \<^verbatim>\<open>original_remark\<close> updated where the
  write succeeded, \<^verbatim>\<open>success_items\<close> holds the names of the entries whose write succeeded,
  \<^verbatim>\<open>failed_items\<close> the names and exceptions of the others, and afterwards
  \<^verbatim>\<open>original_remark\<close> equals \<^verbatim>\<open>current_remark\<close> exactly for the entries whose write
  succeeded.
\<close>

theorem save_changes_report:
  assumes "save_changes mbcs lower w rows = (w', rows', success_items, failed_items)"
  shows "length (spec_attempts mbcs lower w (changed_rows rows)) = length (changed_rows rows) \<and>
     (\<forall>i < length (changed_rows rows).
        spec_attempts mbcs lower w (changed_rows rows) ! i =
          write_info_tip mbcs lower
            ((w # map snd (spec_attempts mbcs lower w (changed_rows rows))) ! i)
            (path (changed_rows rows ! i)) (current_remark (changed_rows rows ! i))) \<and>
     w' = last (w # map snd (spec_attempts mbcs lower w (changed_rows rows))) \<and>
     rows' = map2 report_row (changed_rows rows) (spec_attempts mbcs lower w (changed_rows rows)) \<and>
     success_items =
       map (\<lambda>ra. name (fst ra))
         (filter (\<lambda>ra. \<not> isl (fst (snd ra)))
            (zip (changed_rows rows) (spec_attempts mbcs lower w (changed_rows rows)))) \<and>
     failed_items =
       map (\<lambda>ra. (name (fst ra), projl (fst (snd ra))))
         (filter (\<lambda>ra. isl (fst (snd ra)))
            (zip (changed_rows rows) (spec_attempts mbcs lower w (changed_rows rows)))) \<and>
     (\<forall>i < length (changed_rows rows).
        (original_remark (rows' ! i) = current_remark (rows' ! i)) =
        (\<not> isl (fst (spec_attempts mbcs lower w (changed_rows rows) ! i))))"
proof -
  let ?c = "changed_rows rows"
  let ?a = "spec_attempts mbcs lower w ?c"
  from assms have l: "save_loop mbcs lower w ?c = (w', rows', success_items, failed_items)"
    by (simp add: save_changes_def)
  note r = save_loop_attempts [OF l]
  from r have r1: "w' = last (w # map snd ?a)" and r2: "rows' = map2 report_row ?c ?a"
    and r3: "success_items =
       map (\<lambda>ra. name (fst ra)) (filter (\<lambda>ra. \<not> isl (fst (snd ra))) (zip ?c ?a))"
    and r4: "failed_items =
       map (\<lambda>ra. (name (fst ra), projl (fst (snd ra)))) (filter (\<lambda>ra. isl (fst (snd ra))) (zip ?c ?a))"
    by simp_all
  have "(original_remark (rows' ! i) = current_remark (rows' ! i)) = (\<not> isl (fst (?a ! i)))"
    if i: "i < length ?c" for i
  proof -
    from i have "?c ! i \<in> set ?c" by simp
    then have dirty: "current_remark (?c ! i) \<noteq> original_remark (?c ! i)"
      by (simp add: changed_rows_def)
    from r2 i have "rows' ! i = report_row (?c ! i) (?a ! i)"
      by (simp add: length_spec_attempts)
    with dirty show ?thesis by (auto simp: report_row_def)
  qed
  then have q: "\<forall>i < length ?c.
      (original_remark (rows' ! i) = current_remark (rows' ! i)) = (\<not> isl (fst (?a ! i)))"
    by blast
  have n: "\<forall>i < length ?c. ?a ! i =
      write_info_tip mbcs lower ((w # map snd ?a) ! i) (path (?c ! i)) (current_remark (?c ! i))"
    using spec_attempts_nth [of _ ?c mbcs lower w] by blast
  show ?thesis
    by (intro conjI) (rule length_spec_attempts n r1 r2 r3 r4 q)+
qed

lemma batch_paths:
  "desktop_ini photos \<noteq> desktop_ini albums" "gone \<noteq> photos" "gone \<noteq> albums"
  "gone \<noteq> desktop_ini photos" "albums \<noteq> photos" "albums \<noteq> desktop_ini photos"
  "desktop_ini albums \<noteq> photos" "desktop_ini albums \<noteq> albums" "desktop_ini photos \<noteq> albums"
  by (simp_all add: desktop_ini_def photos_def albums_def gone_def)

lemma save_changes_batch:
  "\<exists>w'. save_changes cp1252 lower_ascii batch_world batch_rows =
     (w',
      [\<lparr>name = py ''photos'', path = photos, original_remark = py ''x'', current_remark = py ''x''\<rparr>,
       \<lparr>name = py ''gone'', path = gone, original_remark = [], current_remark = py ''y''\<rparr>,
       \<lparr>name = py ''albums'', path = albums, original_remark = py ''z'', current_remark = py ''z''\<rparr>],
      [py ''photos'', py ''albums''],
      [(py ''gone'', FileNotFoundError)]) \<and>
     map_option content (files w' (desktop_ini photos)) = Some (doc_bytes (info_doc (py ''x''))) \<and>
     map_option content (files w' (desktop_ini albums)) = Some (doc_bytes (info_doc (py ''z'')))"
proof -
  have x: "py ''x'' \<noteq> []" "before_set (py ''x'') = Inr (py ''x'')" "encodable_doc (info_doc (py ''x''))"
    by (simp_all add: before_set_plain encodable_info_doc encodable_def)
  have z: "py ''z'' \<noteq> []" "before_set (py ''z'') = Inr (py ''z'')" "encodable_doc (info_doc (py ''z''))"
    by (simp_all add: before_set_plain encodable_info_doc encodable_def)
  have s: "sections (info_doc r) \<noteq> []" for r by (simp add: info_doc_def)
  have d0: "dirs batch_world photos = Some 0x10" "dirs batch_world (desktop_ini photos) = None"
    "files batch_world (desktop_ini photos) = None"
    using desktop_ini_neq [of photos] batch_paths by (simp_all add: batch_world_def)
  have r0: "\<not> create_refused batch_world (desktop_ini photos)"
    by (simp add: create_refused_def d0)
  have "edit_parser lower_ascii (safe_read_config cp1252 batch_world (desktop_ini photos)) (py ''x'') =
      Inr (info_doc (py ''x''))"
    by (rule edit_parser_remark [OF _ x(1,2)])
       (simp add: safe_read_config_absent [OF d0(2,3)] only_info_tip_new)
  from write_info_tip_writes [OF d0(1,2) this s x(3) r0]
  obtain w1 f1 a1 where w1: "write_info_tip cp1252 lower_ascii batch_world photos (py ''x'') = (Inr (), w1)"
    "dirs w1 = (dirs batch_world)(photos \<mapsto> a1)"
    "files w1 = (files batch_world)(desktop_ini photos \<mapsto> f1)"
    "content f1 = doc_bytes (info_doc (py ''x''))" by auto
  have "\<not> exists w1 gone"
    using w1(2,3) batch_paths by (simp add: exists_def batch_world_def)
  then have a2: "write_info_tip cp1252 lower_ascii w1 gone (py ''y'') = (Inl FileNotFoundError, w1)"
    by (rule write_info_tip_absent)
  have d1: "dirs w1 albums = Some 0x10" "dirs w1 (desktop_ini albums) = None"
    "files w1 (desktop_ini albums) = None"
    using w1(2,3) desktop_ini_neq [of albums] batch_paths by (simp_all add: batch_world_def)
  have r1: "\<not> create_refused w1 (desktop_ini albums)"
    by (simp add: create_refused_def d1)
  have "edit_parser lower_ascii (safe_read_config cp1252 w1 (desktop_ini albums)) (py ''z'') =
      Inr (info_doc (py ''z''))"
    by (rule edit_parser_remark [OF _ z(1,2)])
       (simp add: safe_read_config_absent [OF d1(2,3)] only_info_tip_new)
  from write_info_tip_writes [OF d1(1,2) this s z(3) r1]
  obtain w3 f3 where a3: "write_info_tip cp1252 lower_ascii w1 albums (py ''z'') = (Inr (), w3)"
    "files w3 = (files w1)(desktop_ini albums \<mapsto> f3)"
    "content f3 = doc_bytes (info_doc (py ''z''))" by auto
  have c: "changed_rows batch_rows = batch_rows"
    by (simp add: changed_rows_def batch_rows_def)
  have "save_changes cp1252 lower_ascii batch_world batch_rows =
     (w3,
      [\<lparr>name = py ''photos'', path = photos, original_remark = py ''x'', current_remark = py ''x''\<rparr>,
       \<lparr>name = py ''gone'', path = gone, original_remark = [], current_remark = py ''y''\<rparr>,
       \<lparr>name = py ''albums'', path = albums, original_remark = py ''z'', current_remark = py ''z''\<rparr>],
      [py ''photos'', py ''albums''],
      [(py ''gone'', FileNotFoundError)])"
    unfolding save_changes_def c
    by (simp add: batch_rows_def w1(1) [simplified] a2 [simplified] a3(1) [simplified])
  moreover have "map_option content (files w3 (desktop_ini photos)) =
      Some (doc_bytes (info_doc (py ''x'')))"
    using a3(2) w1(3,4) batch_paths by simp
  moreover have "map_option content (files w3 (desktop_ini albums)) =
      Some (doc_bytes (info_doc (py ''z'')))"
    using a3(2,3) by simp
  ultimately show ?thesis by blast
qed

theorem save_changes_report_witness:
  "changed_rows batch_rows = batch_rows \<and>
   \<not> isl (fst (spec_attempts cp1252 lower_ascii batch_world batch_rows ! 0)) \<and>
   isl (fst (spec_attempts cp1252 lower_ascii batch_world batch_rows ! 1)) \<and>
   \<not> isl (fst (spec_attempts cp1252 lower_ascii batch_world batch_rows ! 2)) \<and>
   fst (save_changes cp1252 lower_ascii batch_world batch_rows) =
     snd (spec_attempts cp1252 lower_ascii batch_world batch_rows ! 2) \<and>
   files batch_world (desktop_ini photos) = None \<and>
   files batch_world (desktop_ini albums) = None \<and>
   map_option content
     (files (fst (save_changes cp1252 lower_ascii batch_world batch_rows)) (desktop_ini photos)) =
     Some (doc_bytes (info_doc (py ''x''))) \<and>
   map_option content
     (files (fst (save_changes cp1252 lower_ascii batch_world batch_rows)) (desktop_ini albums)) =
     Some (doc_bytes (info_doc (py ''z''))) \<and>
   fst (snd (snd (save_changes cp1252 lower_ascii batch_world batch_rows))) = [py ''photos'', py ''albums''] \<and>
   snd (snd (snd (save_changes cp1252 lower_ascii batch_world batch_rows))) = [(py ''gone'', FileNotFoundError)] \<and>
   map original_remark (fst (snd (save_changes cp1252 lower_ascii batch_world batch_rows))) =
     [py ''x'', [], py ''z'']"
proof -
  let ?r = "save_changes cp1252 lower_ascii batch_world batch_rows"
  let ?a = "spec_attempts cp1252 lower_ascii batch_world batch_rows"
  let ?R = "[\<lparr>name = py ''photos'', path = photos, original_remark = py ''x'', current_remark = py ''x''\<rparr>,
       \<lparr>name = py ''gone'', path = gone, original_remark = [], current_remark = py ''y''\<rparr>,
       \<lparr>name = py ''albums'', path = albums, original_remark = py ''z'', current_remark = py ''z''\<rparr>]"
  have c: "changed_rows batch_rows = batch_rows"
    by (simp add: changed_rows_def batch_rows_def)
  have n: "length batch_rows = 3" by (simp add: batch_rows_def)
  from save_changes_batch obtain w' where
    e: "?r = (w', ?R, [py ''photos'', py ''albums''], [(py ''gone'', FileNotFoundError)])" and
    f: "map_option content (files w' (desktop_ini photos)) = Some (doc_bytes (info_doc (py ''x'')))"
       "map_option content (files w' (desktop_ini albums)) = Some (doc_bytes (info_doc (py ''z'')))"
    by blast
  note t = save_changes_report [OF e]
  from t have q: "\<forall>i<length (changed_rows batch_rows).
      (original_remark (?R ! i) = current_remark (?R ! i)) =
      (\<not> isl (fst (spec_attempts cp1252 lower_ascii batch_world (changed_rows batch_rows) ! i)))"
    by blast
  from t have "w' = last (batch_world # map snd (spec_attempts cp1252 lower_ascii batch_world
      (changed_rows batch_rows)))" by blast
  moreover have "length ?a = 3" by (simp add: length_spec_attempts n)
  then have "last (batch_world # map snd ?a) = snd (?a ! 2)"
    by (cases ?a rule: rev_cases) (simp_all add: nth_append)
  ultimately have l: "w' = snd (?a ! 2)" by (simp add: c)
  have "\<not> isl (fst (?a ! 0))"
    using q [rule_format, of 0] by (simp add: c n)
  moreover have "isl (fst (?a ! 1))"
    using q [rule_format, of 1] by (simp add: c n)
  moreover have "\<not> isl (fst (?a ! 2))"
    using q [rule_format, of 2] by (simp add: c n)
  moreover have "files batch_world (desktop_ini photos) = None"
    "files batch_world (desktop_ini albums) = None"
    by (simp_all add: batch_world_def)
  ultimately show ?thesis using l f by (simp add: c e)
qed

subsection \<open>The first spelling of the key\<close>












subsection \<open>A folder that does not exist\<close>

text \<open>
  C7. When the folder does not exist, \<^verbatim>\<open>write_info_tip\<close> raises \<^verbatim>\<open>FileNotFoundError\<close> for
  every remark, and the file system is left exactly as it was: no attribute, no file and no
  log entry changes.
\<close>

theorem write_info_tip_not_found:
  assumes "\<not> exists w folder"
  shows "write_info_tip mbcs lower w folder remark = (Inl FileNotFoundError, w)"
  using assms by (simp add: write_info_tip_def)

theorem write_info_tip_not_found_witness:
  "\<not> exists empty_world gone \<and>
   write_info_tip cp1252 lower_ascii empty_world gone (py ''note'') = (Inl FileNotFoundError, empty_world)"
  using write_info_tip_not_found [of empty_world gone cp1252 lower_ascii "py ''note''"]
  by (simp add: exists_def empty_world_def)

end
